theory Spec2Isabelle
  imports Main "HOL-Library.AList"
begin

text \<open>
  The class \<open>Echo\<close> of \<open>src/unnamed/part_001\<close>: a state container built on a
  zustand store, persisted through \<open>createIndexedDBMiddleware\<close> (or zustand's
  \<open>persist\<close> on \<open>localStorage\<close>) and synchronised between windows over a
  \<open>BroadcastChannel\<close>. JavaScript runs one callback at a time: every method call,
  timer callback and resumption after an \<open>await\<close> is one function from the state
  of the instance to its next state, and the order in which they run is the order
  in which they are applied.
\<close>

section \<open>JavaScript values\<close>

text \<open>
  The store's type parameter \<open>T\<close> defaults to \<open>Record<string, any>\<close>, inbound
  messages are typed \<open>any\<close>, so states and messages are values of one untyped
  universe. An object is its list of own enumerable properties in insertion order.
  Numbers are integers: nothing in the store computes with them. A \<open>BigInt\<close> is
  a value that a state or a message can hold (IndexedDB and the structured clone
  of a channel message keep it) and that \<open>JSON.stringify\<close> refuses.
\<close>

datatype jsval =
    JUndefined
  | JNull
  | JBool bool
  | JNum int
  | JBigInt int
  | JStr string
  | JArr "jsval list"
  | JObj "(string \<times> jsval) list"

text \<open>
  \<open>Object.is\<close> compares objects by reference. A reference is an address together
  with the content found there; two references denote the same object when they
  agree on both. Primitive values are compared by value. State objects are not
  mutated in place (the store replaces them), and the objects the store itself
  creates are allocated at its counter \<open>nextAddr\<close>.
\<close>

type_synonym jsref = "nat \<times> jsval"

fun truthy :: "jsval \<Rightarrow> bool" where
  "truthy JUndefined = False"
| "truthy JNull = False"
| "truthy (JBool b) = b"
| "truthy (JNum n) = (n \<noteq> 0)"
| "truthy (JBigInt n) = (n \<noteq> 0)"
| "truthy (JStr s) = (s \<noteq> [])"
| "truthy (JArr xs) = True"
| "truthy (JObj fs) = True"

text \<open>\<open>typeof v === "object"\<close> (which holds of \<open>null\<close>).\<close>

fun typeof_object :: "jsval \<Rightarrow> bool" where
  "typeof_object JNull = True"
| "typeof_object (JArr xs) = True"
| "typeof_object (JObj fs) = True"
| "typeof_object v = False"

definition is_object :: "jsval \<Rightarrow> bool" where
  "is_object v = (typeof_object v \<and> v \<noteq> JNull)"

definition Object_is :: "jsref \<Rightarrow> jsref \<Rightarrow> bool" where
  "Object_is x y = (if is_object (snd x) then x = y else snd x = snd y)"

definition digit_char :: "nat \<Rightarrow> char" where
  "digit_char d = char_of (48 + d)"

fun index_key :: "nat \<Rightarrow> string" where
  "index_key n = (if n < 10 then [digit_char n] else index_key (n div 10) @ [digit_char (n mod 10)])"

declare index_key.simps [simp del]

text \<open>The own enumerable properties that \<open>Object.assign\<close> and the spread \<open>{...v}\<close> copy.\<close>

fun own_props :: "jsval \<Rightarrow> (string \<times> jsval) list" where
  "own_props (JObj fs) = fs"
| "own_props (JArr xs) = zip (map index_key [0..<length xs]) xs"
| "own_props (JStr cs) = zip (map index_key [0..<length cs]) (map (\<lambda>c. JStr [c]) cs)"
| "own_props v = []"

definition assign_props :: "(string \<times> jsval) list \<Rightarrow> jsval \<Rightarrow> (string \<times> jsval) list" where
  "assign_props target source = fold (\<lambda>(k, v). AList.update k v) (own_props source) target"

text \<open>\<open>Object.assign({}, a, b)\<close>.\<close>

definition Object_assign :: "jsval \<Rightarrow> jsval \<Rightarrow> jsval" where
  "Object_assign a b = JObj (assign_props (assign_props [] a) b)"

text \<open>\<open>{ ...v }\<close>.\<close>

definition spread :: "jsval \<Rightarrow> (string \<times> jsval) list" where
  "spread v = assign_props [] v"

text \<open>
  The properties of a value as a map (where a key is listed twice, the later
  binding counts, as in an object literal), the property read \<open>v.k\<close> and
  \<open>v.hasOwnProperty(k)\<close> on a plain object.
\<close>

definition props :: "jsval \<Rightarrow> string \<rightharpoonup> jsval" where
  "props v = map_of (rev (own_props v))"

definition get_prop :: "jsval \<Rightarrow> string \<Rightarrow> jsval" where
  "get_prop v k = (case props v k of None \<Rightarrow> JUndefined | Some x \<Rightarrow> x)"

definition has_own :: "jsval \<Rightarrow> string \<Rightarrow> bool" where
  "has_own v k = (props v k \<noteq> None)"

section \<open>Exceptions, callbacks, observable events\<close>

datatype exn = TypeError | QuotaExceededError | UserError string

type_synonym 'a completion = "exn + 'a"

type_synonym callback = "jsval \<Rightarrow> jsval \<Rightarrow> unit completion"

text \<open>
  The argument of \<open>set\<close>: a value, or an updater function of the current state
  (which may throw).
\<close>

datatype partial = PValue jsref | PFunc "jsref \<Rightarrow> jsref completion"

text \<open>
  Everything the store does to the outside world is appended to a trace.
  \<open>OnChange new old cur\<close> records one call of the configured \<open>onChange\<close> with its
  two arguments and the value \<open>current\<close> had at the moment of the call.
\<close>

datatype event =
    OnChange jsval jsval jsval
  | ListenerCall nat jsval jsval
  | PostMessage jsval
  | ChannelOpen string
  | ChannelClose
  | IDBSetItem string jsval bool
  | LocalStorageSetItem string jsval bool
  | TimerDelay nat
  | ConsoleError string
  | ConsoleWarn string
  | ConsoleLog string
  | UnhandledRejection exn

datatype storageType = localStorage | indexedDB

record EchoOptions =
  name :: "string option"
  storageType :: "storageType option"
  onChange :: "callback option"
  sync_option :: bool

text \<open>
  What the surrounding JavaScript runtime provides. \<open>JSON.stringify\<close> throws a
  \<open>TypeError\<close> on the values it cannot serialise (a \<open>BigInt\<close>, a cyclic object).
\<close>

record runtime =
  JSON_stringify :: "jsval \<Rightarrow> string completion"
  has_window :: bool
  has_BroadcastChannel :: bool
  has_requestIdleCallback :: bool
  has_localStorage :: bool


section \<open>The store instance\<close>

text \<open>
  One record holds everything an \<open>Echo\<close> instance owns: the constructor arguments,
  the zustand store (\<open>state\<close>, \<open>listeners\<close>), the closure variables of
  \<open>createIndexedDBMiddleware\<close> (\<open>isInitialized\<close>, \<open>isHydrating\<close>,
  \<open>lastSavedState\<close>, \<open>saveTimeout\<close>), the private fields of the class
  (\<open>channel\<close>, \<open>lastSyncHash\<close>, \<open>syncTimeout\<close>), and what is suspended in the
  event loop. A timer field holds what the pending timer's closure captured and is
  \<open>None\<close> when no timer is pending. \<open>write_outcomes\<close> scripts the storage
  backend: the outcome of each successive write attempt (\<open>True\<close> succeeds), every
  attempt after the script succeeding.
\<close>

record echo =
  defaultValue :: jsref
  options :: EchoOptions
  env :: runtime
  state :: jsref
  listeners :: "(nat \<times> callback) list"
  nextListener :: nat
  nextAddr :: nat
  hydrationPending :: bool
  isInitialized :: bool
  isHydrating :: bool
  lastSavedState :: "string option"
  saveTimeout :: "jsval option"
  channel :: "string option"
  lastSyncHash :: "string option"
  syncTimeout :: "(jsval \<times> string) option"
  pendingInbound :: "(jsval \<times> string) list"
  syncInitScheduled :: nat
  syncInitAwaiting :: nat
  write_outcomes :: "bool list"
  trace :: "event list"

definition MAX_RETRY_COUNT :: nat where "MAX_RETRY_COUNT = 3"
definition RETRY_DELAY :: nat where "RETRY_DELAY = 500"
definition SYNC_DELAY :: nat where "SYNC_DELAY = 50"
definition SAVE_DELAY :: nat where "SAVE_DELAY = 100"

text \<open>\<open>if (!this.options.name)\<close>: an absent name and the empty string are both falsy.\<close>

definition has_name :: "EchoOptions \<Rightarrow> bool" where
  "has_name opts = (case name opts of None \<Rightarrow> False | Some n \<Rightarrow> n \<noteq> [])"

definition the_name :: "EchoOptions \<Rightarrow> string" where
  "the_name opts = (case name opts of None \<Rightarrow> [] | Some n \<Rightarrow> n)"

text \<open>Which of the three branches of \<open>initialize\<close> built the store.\<close>

datatype persistence = NoPersistence | LocalStoragePersist | IndexedDBMiddleware

definition persistence_of :: "EchoOptions \<Rightarrow> persistence" where
  "persistence_of opts =
     (if \<not> has_name opts then NoPersistence
      else if storageType opts = Some indexedDB then IndexedDBMiddleware
      else LocalStoragePersist)"

definition log_event :: "event \<Rightarrow> echo \<Rightarrow> echo" where
  "log_event e s = s\<lparr>trace := trace s @ [e]\<rparr>"

definition storage_write :: "echo \<Rightarrow> bool \<times> echo" where
  "storage_write s =
     (case write_outcomes s of
        [] \<Rightarrow> (True, s)
      | ok # rest \<Rightarrow> (ok, s\<lparr>write_outcomes := rest\<rparr>))"

text \<open>\<open>IndexedDBStorage.setItem\<close>: the promise resolves (\<open>True\<close>) or rejects.\<close>

definition IDB_setItem :: "echo \<Rightarrow> string \<Rightarrow> jsval \<Rightarrow> bool \<times> echo" where
  "IDB_setItem s key v =
     (case storage_write s of (ok, s1) \<Rightarrow> (ok, log_event (IDBSetItem key v ok) s1))"

subsection \<open>The zustand store\<close>

text \<open>
  \<open>listeners.forEach((listener) => listener(state, previousState))\<close>: a listener
  that throws ends the iteration.
\<close>

fun notify :: "(nat \<times> callback) list \<Rightarrow> jsval \<Rightarrow> jsval \<Rightarrow> event list \<times> unit completion" where
  "notify [] new old = ([], Inr ())"
| "notify ((i, f) # ls) new old =
     (case f new old of
        Inl e \<Rightarrow> ([ListenerCall i new old], Inl e)
      | Inr u \<Rightarrow> (case notify ls new old of (evs, r) \<Rightarrow> (ListenerCall i new old # evs, r)))"

text \<open>
  \<open>setState\<close> of zustand's vanilla store (library code the class is built on):
  \<^verbatim>\<open>
  const nextState = typeof partial === "function" ? partial(state) : partial
  if (!Object.is(nextState, state)) {
    const previousState = state
    state = (replace ?? (typeof nextState !== "object" || nextState === null))
      ? nextState : Object.assign({}, state, nextState)
    listeners.forEach((listener) => listener(state, previousState))
  }\<close>
  The first listener of a store built by \<open>createIndexedDBMiddleware\<close> is the
  middleware's own subscription, which restarts the save timer with the new state.
\<close>

definition partial_value :: "echo \<Rightarrow> partial \<Rightarrow> jsref completion" where
  "partial_value s partial = (case partial of PFunc f \<Rightarrow> f (state s) | PValue v \<Rightarrow> Inr v)"

definition setState :: "echo \<Rightarrow> partial \<Rightarrow> bool option \<Rightarrow> unit completion \<times> echo" where
  "setState s partial replace =
     (case partial_value s partial of
        Inl e \<Rightarrow> (Inl e, s)
      | Inr nextState \<Rightarrow>
          if Object_is nextState (state s) then (Inr (), s)
          else
            let previousState = state s;
                s1 = (if (case replace of Some r \<Rightarrow> r | None \<Rightarrow> \<not> is_object (snd nextState))
                      then s\<lparr>state := nextState\<rparr>
                      else s\<lparr>state := (nextAddr s, Object_assign (snd (state s)) (snd nextState)),
                             nextAddr := Suc (nextAddr s)\<rparr>);
                s2 = (if persistence_of (options s1) = IndexedDBMiddleware
                      then s1\<lparr>saveTimeout := Some (snd (state s1))\<rparr> else s1)
            in case notify (listeners s2) (snd (state s2)) (snd previousState) of
                 (evs, r) \<Rightarrow> (r, s2\<lparr>trace := trace s2 @ evs\<rparr>))"

text \<open>
  The \<open>persist\<close> middleware of zustand (library code) replaces \<open>api.setState\<close> by
  \<^verbatim>\<open>(state, replace) => { savedSetState(state, replace); void setItem() }\<close>
  where \<open>setItem\<close> serialises \<open>{ state: { ...get() }, version: 0 }\<close> with
  \<open>JSON.stringify\<close> and writes it to \<open>localStorage\<close> at once;
  \<open>localStorage.setItem\<close> throws when the quota is exceeded. Without
  \<open>localStorage\<close> the middleware is inactive.
\<close>

definition persisted_record :: "jsval \<Rightarrow> jsval" where
  "persisted_record st = JObj [(''state'', JObj (spread st)), (''version'', JNum 0)]"

definition persist_setItem :: "echo \<Rightarrow> unit completion \<times> echo" where
  "persist_setItem s =
     (case JSON_stringify (env s) (persisted_record (snd (state s))) of
        Inl e \<Rightarrow> (Inl e, s)
      | Inr serialised \<Rightarrow>
          (case storage_write s of
             (ok, s1) \<Rightarrow>
               (if ok then Inr () else Inl QuotaExceededError,
                log_event (LocalStorageSetItem (the_name (options s1))
                   (persisted_record (snd (state s1))) ok) s1)))"

text \<open>\<open>this.store.setState\<close>, as every method of the class calls it.\<close>

definition store_setState :: "echo \<Rightarrow> partial \<Rightarrow> bool option \<Rightarrow> unit completion \<times> echo" where
  "store_setState s partial replace =
     (case setState s partial replace of
        (Inl e, s1) \<Rightarrow> (Inl e, s1)
      | (Inr u, s1) \<Rightarrow>
          if persistence_of (options s1) = LocalStoragePersist \<and> has_localStorage (env s1)
          then persist_setItem s1 else (Inr (), s1))"


subsection \<open>The IndexedDB middleware\<close>

text \<open>
  The \<open>onRehydrateStorage\<close> callback that \<open>initialize\<close> passes to the middleware
  only logs. (Messages are rendered in English.)
\<close>

definition onRehydrateStorage :: "jsval \<Rightarrow> echo \<Rightarrow> echo" where
  "onRehydrateStorage st s =
     (if truthy st then log_event (ConsoleLog ''state restored from storage'') s
      else log_event (ConsoleLog ''state restore failed, using default value'') s)"

text \<open>
  \<open>initializeState\<close> is started by the middleware and suspends at once on
  \<open>await storage.waitForDB()\<close>. The step below is the rest of it, run when the
  database has answered: \<open>loaded\<close> is what \<open>getItem\<close> resolved to (\<open>null\<close>
  when there is no record), or the rejection of \<open>waitForDB\<close> or \<open>getItem\<close>.
  The \<open>set\<close> the middleware received is the vanilla \<open>setState\<close>. A record read
  from the database is a new object, allocated at \<open>nextAddr\<close>.
\<close>

definition initializeState :: "echo \<Rightarrow> jsval completion \<Rightarrow> echo" where
  "initializeState s loaded =
     (if isInitialized s then s
      else if \<not> hydrationPending s then s
      else
        let s0 = s\<lparr>hydrationPending := False\<rparr> in
        case loaded of
          Inl e \<Rightarrow> onRehydrateStorage JNull (log_event (ConsoleError ''load state failed'') s0)
        | Inr savedState \<Rightarrow>
            if savedState \<noteq> JNull then
              (case setState (s0\<lparr>isHydrating := True, nextAddr := Suc (nextAddr s0)\<rparr>)
                      (PValue (nextAddr s0, savedState)) (Some True) of
                 (Inl e, s1) \<Rightarrow>
                   onRehydrateStorage JNull (log_event (ConsoleError ''load state failed'') s1)
               | (Inr u, s1) \<Rightarrow>
                   (onRehydrateStorage savedState (s1\<lparr>isHydrating := False\<rparr>))\<lparr>isInitialized := True\<rparr>)
            else
              (case IDB_setItem s0 (the_name (options s0)) (snd (state s0)) of
                 (True, s1) \<Rightarrow> (onRehydrateStorage JNull s1)\<lparr>isInitialized := True\<rparr>
               | (False, s1) \<Rightarrow>
                   onRehydrateStorage JNull (log_event (ConsoleError ''load state failed'') s1)))"

text \<open>
  \<open>saveState\<close>, with the write awaited inside it settled in the same step. The
  hash is computed before the \<open>try\<close>: when \<open>JSON.stringify\<close> throws, the promise
  of this \<open>async\<close> function is rejected, and the timer callback that called it
  does not handle the rejection.
\<close>

definition saveState :: "echo \<Rightarrow> jsval \<Rightarrow> echo" where
  "saveState s st =
     (case JSON_stringify (env s) st of
        Inl e \<Rightarrow> log_event (UnhandledRejection e) s
      | Inr stateHash \<Rightarrow>
          if Some stateHash = lastSavedState s \<or> isHydrating s then s
          else
            case IDB_setItem (s\<lparr>lastSavedState := Some stateHash\<rparr>) (the_name (options s)) st of
              (True, s1) \<Rightarrow> s1
            | (False, s1) \<Rightarrow>
                (log_event (ConsoleError ''save state failed'') s1)\<lparr>lastSavedState := None\<rparr>)"

text \<open>The save timer set by the middleware's subscription fires after 100 ms.\<close>

definition saveTimeout_fires :: "echo \<Rightarrow> echo" where
  "saveTimeout_fires s =
     (case saveTimeout s of
        None \<Rightarrow> s
      | Some st \<Rightarrow> saveState (s\<lparr>saveTimeout := None\<rparr>) st)"

subsection \<open>The class \<open>Echo\<close>\<close>

definition Echo_current :: "echo \<Rightarrow> jsref" where
  "Echo_current s = state s"

definition Echo_getStateHash :: "echo \<Rightarrow> jsval \<Rightarrow> string completion" where
  "Echo_getStateHash s st = JSON_stringify (env s) st"

text \<open>
  \<open>broadcastState\<close>. The hash is computed before the \<open>try\<close> block, so an
  exception of \<open>getStateHash\<close> leaves the method; the \<open>try\<close> block itself only
  replaces the pending timer, which does not throw.
\<close>

definition Echo_broadcastState :: "echo \<Rightarrow> jsval \<Rightarrow> unit completion \<times> echo" where
  "Echo_broadcastState s newState =
     (if channel s = None then (Inr (), s)
      else if \<not> sync_option (options s) then (Inr (), s)
      else
        case Echo_getStateHash s newState of
          Inl e \<Rightarrow> (Inl e, s)
        | Inr hash \<Rightarrow>
            if Some hash = lastSyncHash s then (Inr (), s)
            else (Inr (), s\<lparr>syncTimeout := Some (newState, hash)\<rparr>))"

text \<open>
  The broadcast timer fires after \<open>SAVE_DELAY\<close>; \<open>now\<close> is \<open>Date.now()\<close>, and
  \<open>postMessage\<close> is taken not to throw.
\<close>

definition envelope :: "jsval \<Rightarrow> int \<Rightarrow> jsval" where
  "envelope st now = JObj [(''type'', JStr ''state-update''), (''state'', st), (''timestamp'', JNum now)]"

definition syncTimeout_fires :: "echo \<Rightarrow> int \<Rightarrow> echo" where
  "syncTimeout_fires s now =
     (case syncTimeout s of
        None \<Rightarrow> s
      | Some (newState, hash) \<Rightarrow>
          let s1 = s\<lparr>syncTimeout := None\<rparr>;
              s2 = (case channel s1 of
                      None \<Rightarrow> s1
                    | Some c \<Rightarrow> log_event (PostMessage (envelope newState now)) s1)
          in s2\<lparr>lastSyncHash := Some hash\<rparr>)"

text \<open>\<open>if (this.options.onChange) this.options.onChange(newState, oldState)\<close>.\<close>

definition call_onChange :: "echo \<Rightarrow> jsval \<Rightarrow> jsval \<Rightarrow> unit completion \<times> echo" where
  "call_onChange s newState oldState =
     (case onChange (options s) of
        None \<Rightarrow> (Inr (), s)
      | Some cb \<Rightarrow> (cb newState oldState, log_event (OnChange newState oldState (snd (state s))) s))"

definition Echo_set :: "echo \<Rightarrow> partial \<Rightarrow> bool \<Rightarrow> unit completion \<times> echo" where
  "Echo_set s partial replace =
     (let oldState = Echo_current s in
      case (if replace then store_setState s partial (Some True)
            else store_setState s partial None) of
        (Inl e, s1) \<Rightarrow> (Inl e, s1)
      | (Inr u, s1) \<Rightarrow>
          let newState = Echo_current s1 in
          case (if channel s1 \<noteq> None then Echo_broadcastState s1 (snd newState)
                else (Inr (), s1)) of
            (Inl e, s2) \<Rightarrow> (Inl e, s2)
          | (Inr u', s2) \<Rightarrow> call_onChange s2 (snd newState) (snd oldState))"

text \<open>
  \<open>delete\<close>: the updater builds a new object \<open>{ ...state }\<close> and removes the key.
\<close>

definition Echo_delete :: "echo \<Rightarrow> string \<Rightarrow> unit completion \<times> echo" where
  "Echo_delete s key =
     store_setState (s\<lparr>nextAddr := Suc (nextAddr s)\<rparr>)
       (PFunc (\<lambda>st. Inr (nextAddr s, JObj (AList.delete key (spread (snd st))))))
       (Some True)"

definition Echo_reset :: "echo \<Rightarrow> unit completion \<times> echo" where
  "Echo_reset s =
     (let oldState = Echo_current s in
      case store_setState s (PValue (defaultValue s)) (Some True) of
        (Inl e, s1) \<Rightarrow> (Inl e, s1)
      | (Inr u, s1) \<Rightarrow> call_onChange s1 (snd (defaultValue s1)) (snd oldState))"

text \<open>
  \<open>subscribe\<close> adds the listener to the zustand store; the number returned stands
  for the unsubscribe function.
\<close>

definition Echo_subscribe :: "echo \<Rightarrow> callback \<Rightarrow> nat completion \<times> echo" where
  "Echo_subscribe s listener =
     (Inr (nextListener s),
      s\<lparr>listeners := listeners s @ [(nextListener s, listener)],
        nextListener := Suc (nextListener s)\<rparr>)"

definition unsubscribe :: "echo \<Rightarrow> nat \<Rightarrow> echo" where
  "unsubscribe s i = s\<lparr>listeners := filter (\<lambda>l. fst l \<noteq> i) (listeners s)\<rparr>"


text \<open>
  \<open>validateStateUpdate\<close>. The conjunction is evaluated left to right.
  \<open>data.hasOwnProperty\<close> is the method of \<open>Object.prototype\<close> unless the message
  has an own property of that name; a message carries no functions, so calling
  such a property throws a \<open>TypeError\<close>.
\<close>

definition Echo_validateStateUpdate :: "jsval \<Rightarrow> bool completion" where
  "Echo_validateStateUpdate data =
     (if \<not> truthy data then Inr False
      else if \<not> typeof_object data then Inr False
      else if get_prop data ''type'' \<noteq> JStr ''state-update'' then Inr False
      else if has_own data ''hasOwnProperty'' then Inl TypeError
      else Inr (has_own data ''state'' \<and> has_own data ''timestamp''))"

text \<open>
  The part of the \<open>onmessage\<close> handler that applies an accepted message. The state
  of the message is a new object, allocated at \<open>nextAddr\<close>.
\<close>

definition inbound_apply :: "echo \<Rightarrow> jsval \<Rightarrow> string \<Rightarrow> unit completion \<times> echo" where
  "inbound_apply s st hash =
     (case store_setState (s\<lparr>lastSyncHash := Some hash, nextAddr := Suc (nextAddr s)\<rparr>)
             (PValue (nextAddr s, st)) (Some True) of
        (Inl e, s1) \<Rightarrow> (Inl e, s1)
      | (Inr u, s1) \<Rightarrow>
          (case onChange (options s1) of
             None \<Rightarrow> (Inr (), s1)
           | Some cb \<Rightarrow>
               let oldState = Echo_current s1 in
               (cb st (snd oldState), log_event (OnChange st (snd oldState) (snd (state s1))) s1)))"

text \<open>The \<open>catch\<close> of the handler.\<close>

definition inbound_catch :: "unit completion \<times> echo \<Rightarrow> echo" where
  "inbound_catch rs =
     (case rs of
        (Inl e, s) \<Rightarrow> log_event (ConsoleError ''error while handling sync message'') s
      | (Inr u, s) \<Rightarrow> s)"

text \<open>
  The handler up to its end or, for an IndexedDB store, up to the
  \<open>await\<close> of the \<open>SYNC_DELAY\<close> timer, where the accepted message waits in
  \<open>pendingInbound\<close>.
\<close>

definition Echo_onmessage :: "echo \<Rightarrow> jsval \<Rightarrow> echo" where
  "Echo_onmessage s data =
     (case Echo_validateStateUpdate data of
        Inl e \<Rightarrow> inbound_catch (Inl e, s)
      | Inr valid \<Rightarrow>
          if valid then
            case Echo_getStateHash s (get_prop data ''state'') of
              Inl e \<Rightarrow> inbound_catch (Inl e, s)
            | Inr hash \<Rightarrow>
                if Some hash \<noteq> lastSyncHash s then
                  if storageType (options s) = Some indexedDB
                  then s\<lparr>pendingInbound := pendingInbound s @ [(get_prop data ''state'', hash)]\<rparr>
                  else inbound_catch (inbound_apply s (get_prop data ''state'') hash)
                else s
          else s)"

definition onmessage_resumes :: "echo \<Rightarrow> echo" where
  "onmessage_resumes s =
     (case pendingInbound s of
        [] \<Rightarrow> s
      | (st, hash) # rest \<Rightarrow> inbound_catch (inbound_apply (s\<lparr>pendingInbound := rest\<rparr>) st hash))"

text \<open>
  \<open>initializeSync\<close>. For an IndexedDB store it suspends on
  \<open>await this.waitForStorage()\<close> and \<open>initializeSync_resumes\<close> runs the rest;
  otherwise it runs to its end in the same step. The constructor of
  \<open>BroadcastChannel\<close> is taken not to throw; the \<open>catch\<close> is reached when the
  initial \<open>broadcastState\<close> throws, and drops the channel without closing it.
\<close>

definition initializeSync_connect :: "echo \<Rightarrow> echo" where
  "initializeSync_connect s =
     (let channelName = ''echo-'' @ the_name (options s);
          s1 = log_event (ChannelOpen channelName) (s\<lparr>channel := Some channelName\<rparr>)
      in case Echo_broadcastState s1 (snd (Echo_current s1)) of
           (Inl e, s2) \<Rightarrow> (log_event (ConsoleError ''sync initialisation failed'') s2)\<lparr>channel := None\<rparr>
         | (Inr u, s2) \<Rightarrow> s2)"

definition Echo_initializeSync :: "echo \<Rightarrow> echo" where
  "Echo_initializeSync s =
     (if \<not> has_name (options s)
      then log_event (ConsoleWarn ''cannot initialize sync: the name option is required'') s
      else if \<not> (has_window (env s) \<and> has_BroadcastChannel (env s))
      then log_event (ConsoleWarn ''BroadcastChannel is not supported'') s
      else if storageType (options s) = Some indexedDB
      then s\<lparr>syncInitAwaiting := Suc (syncInitAwaiting s)\<rparr>
      else initializeSync_connect s)"

definition initializeSync_resumes :: "echo \<Rightarrow> echo" where
  "initializeSync_resumes s =
     (if syncInitAwaiting s = 0 then s
      else initializeSync_connect (s\<lparr>syncInitAwaiting := syncInitAwaiting s - 1\<rparr>))"

definition Echo_sync :: "echo \<Rightarrow> bool \<Rightarrow> echo" where
  "Echo_sync s enabled =
     (if enabled = (channel s \<noteq> None) then s
      else if enabled then Echo_initializeSync s
      else
        (case channel s of
           None \<Rightarrow> s
         | Some c \<Rightarrow> log_event ChannelClose s)\<lparr>channel := None, lastSyncHash := None\<rparr>)"

text \<open>
  \<open>saveStateWithRetry\<close>; the retry that the \<open>RETRY_DELAY\<close> timer starts is the
  recursive call.
\<close>

function Echo_saveStateWithRetry :: "echo \<Rightarrow> jsval \<Rightarrow> string \<Rightarrow> nat \<Rightarrow> echo" where
  "Echo_saveStateWithRetry s st nm retryCount =
     (case IDB_setItem s nm st of
        (True, s1) \<Rightarrow> s1
      | (False, s1) \<Rightarrow>
          let s2 = log_event (ConsoleError (''save state failed (attempt '' @ index_key (retryCount + 1)
                      @ ''/'' @ index_key MAX_RETRY_COUNT @ '')'')) s1
          in if retryCount < MAX_RETRY_COUNT
             then Echo_saveStateWithRetry (log_event (TimerDelay RETRY_DELAY) s2) st nm (retryCount + 1)
             else s2)"
  by pat_completeness auto
termination
  by (relation "measure (\<lambda>(s, st, nm, retryCount). Suc MAX_RETRY_COUNT - retryCount)") auto

declare Echo_saveStateWithRetry.simps [simp del]

text \<open>
  The constructor. An unnamed store starts from a copy \<open>{ ...defaultValue }\<close>, a
  named one from the default value itself. For an IndexedDB store the middleware
  starts \<open>initializeState\<close>; with the \<open>sync\<close> option, \<open>initializeSync\<close> is
  scheduled. What zustand's \<open>persist\<close> rehydrates from \<open>localStorage\<close> at
  creation is not part of the model: such a store starts from the default value.
  Nor are the constructor's own database connection (\<open>this.storage\<close>, which only
  \<open>waitForStorage\<close> awaits) and its \<open>beforeunload\<close> handler.
\<close>

definition Echo_new :: "jsref \<Rightarrow> EchoOptions \<Rightarrow> runtime \<Rightarrow> bool list \<Rightarrow> echo" where
  "Echo_new dv opts rt outcomes =
     \<lparr>defaultValue = dv, options = opts, env = rt,
      state = (if has_name opts then dv else (Suc (fst dv), JObj (spread (snd dv)))),
      listeners = [], nextListener = 0, nextAddr = Suc (Suc (fst dv)),
      hydrationPending = (persistence_of opts = IndexedDBMiddleware),
      isInitialized = False, isHydrating = False,
      lastSavedState = None, saveTimeout = None,
      channel = None, lastSyncHash = None, syncTimeout = None, pendingInbound = [],
      syncInitScheduled = (if sync_option opts then 1 else 0), syncInitAwaiting = 0,
      write_outcomes = outcomes, trace = []\<rparr>"

definition scheduled_initializeSync_runs :: "echo \<Rightarrow> echo" where
  "scheduled_initializeSync_runs s =
     (if syncInitScheduled s = 0 then s
      else Echo_initializeSync (s\<lparr>syncInitScheduled := syncInitScheduled s - 1\<rparr>))"

subsection \<open>Reading the trace\<close>

fun onChange_calls :: "event list \<Rightarrow> (jsval \<times> jsval \<times> jsval) list" where
  "onChange_calls [] = []"
| "onChange_calls (OnChange n old cur # es) = (n, old, cur) # onChange_calls es"
| "onChange_calls (e # es) = onChange_calls es"

fun posted :: "event list \<Rightarrow> jsval list" where
  "posted [] = []"
| "posted (PostMessage m # es) = m # posted es"
| "posted (e # es) = posted es"

fun idb_writes :: "event list \<Rightarrow> (string \<times> jsval \<times> bool) list" where
  "idb_writes [] = []"
| "idb_writes (IDBSetItem k v ok # es) = (k, v, ok) # idb_writes es"
| "idb_writes (e # es) = idb_writes es"


section \<open>Concrete instances\<close>

text \<open>
  A rendering of values that stands for \<open>JSON.stringify\<close> in the instances
  below: it throws on a value that holds a \<open>BigInt\<close> and gives the JSON text of
  every other value (string escapes are left out). The facts of this theory hold
  for every \<open>JSON_stringify\<close> a runtime may provide.
\<close>

fun join :: "string \<Rightarrow> string list \<Rightarrow> string" where
  "join sep [] = []"
| "join sep [x] = x"
| "join sep (x # y # ys) = x @ sep @ join sep (y # ys)"

definition show_int :: "int \<Rightarrow> string" where
  "show_int i = (if i < 0 then CHR ''-'' # index_key (nat (- i)) else index_key (nat i))"

primrec json_text :: "jsval \<Rightarrow> string" where
  "json_text JUndefined = ''undefined''"
| "json_text JNull = ''null''"
| "json_text (JBool b) = (if b then ''true'' else ''false'')"
| "json_text (JNum n) = show_int n"
| "json_text (JBigInt n) = show_int n @ ''n''"
| "json_text (JStr s) = CHR 0x22 # s @ [CHR 0x22]"
| "json_text (JArr xs) = ''['' @ join '','' (map json_text xs) @ '']''"
| "json_text (JObj fs) =
     ''{'' @ join '','' (map (\<lambda>(k, t). CHR 0x22 # k @ [CHR 0x22] @ '':'' @ t)
                          (map (map_prod id json_text) fs)) @ ''}''"

primrec has_BigInt :: "jsval \<Rightarrow> bool" where
  "has_BigInt JUndefined = False"
| "has_BigInt JNull = False"
| "has_BigInt (JBool b) = False"
| "has_BigInt (JNum n) = False"
| "has_BigInt (JBigInt n) = True"
| "has_BigInt (JStr s) = False"
| "has_BigInt (JArr xs) = (True \<in> set (map has_BigInt xs))"
| "has_BigInt (JObj fs) = (True \<in> set (map snd (map (map_prod id has_BigInt) fs)))"

definition json_stringify :: "jsval \<Rightarrow> string completion" where
  "json_stringify v = (if has_BigInt v then Inl TypeError else Inr (json_text v))"

definition browser :: runtime where
  "browser = \<lparr>JSON_stringify = json_stringify, has_window = True, has_BroadcastChannel = True,
      has_requestIdleCallback = True, has_localStorage = True\<rparr>"

definition quiet_callback :: callback where
  "quiet_callback new old = Inr ()"

definition throwing_callback :: callback where
  "throwing_callback new old = Inl (UserError ''boom'')"

text \<open>An unnamed store \<open>{ count: 0, label: "a" }\<close> with an \<open>onChange\<close> callback.\<close>

definition counter_store :: echo where
  "counter_store =
     Echo_new (0, JObj [(''count'', JNum 0), (''label'', JStr ''a'')])
       \<lparr>name = None, storageType = None, onChange = Some quiet_callback, sync_option = False\<rparr>
       browser []"

text \<open>
  A named store \<open>{ x: 1 }\<close> on \<open>localStorage\<close> with \<open>sync: true\<close> and an
  \<open>onChange\<close> callback, as the constructor leaves it, and after the scheduled
  \<open>initializeSync\<close> has run and the initial broadcast has been posted.
\<close>

definition history_new :: echo where
  "history_new =
     Echo_new (0, JObj [(''x'', JNum 1)])
       \<lparr>name = Some ''history'', storageType = None, onChange = Some quiet_callback, sync_option = True\<rparr>
       browser []"

definition history_store :: echo where
  "history_store = syncTimeout_fires (scheduled_initializeSync_runs history_new) 1000"

text \<open>
  The same store after \<open>set({ x: 2 })\<close>, which leaves the broadcast timer
  pending; after \<open>sync(false)\<close>; after the timer has fired; and after
  \<open>sync(true)\<close>.
\<close>

definition history_edited :: echo where
  "history_edited = snd (Echo_set history_store (PValue (9, JObj [(''x'', JNum 2)])) False)"

definition history_off :: echo where
  "history_off = Echo_sync history_edited False"

definition history_stale :: echo where
  "history_stale = syncTimeout_fires history_off 1100"

definition history_on_again :: echo where
  "history_on_again = Echo_sync history_stale True"

text \<open>
  A store \<open>{ n: 1 }\<close> persisted to IndexedDB under the name \<open>notes\<close> with
  \<open>sync: true\<close>, as the constructor leaves it, and after \<open>initializeSync\<close> has
  run, waited for the storage and connected, and the initial broadcast has been
  posted.
\<close>

definition notes_new :: echo where
  "notes_new =
     Echo_new (0, JObj [(''n'', JNum 1)])
       \<lparr>name = Some ''notes'', storageType = Some indexedDB, onChange = Some quiet_callback, sync_option = True\<rparr>
       browser []"

definition notes_store :: echo where
  "notes_store = syncTimeout_fires (initializeSync_resumes (scheduled_initializeSync_runs notes_new)) 1000"

section \<open>The envelope shape of the specification\<close>

text \<open>
  The shape \<open>{ type: "state-update", state: T, timestamp: integer }\<close> as the
  specification words it: an object whose \<open>type\<close> is the string
  \<open>"state-update"\<close>, which has a \<open>state\<close>, and whose \<open>timestamp\<close> is a number.
\<close>

definition is_BroadcastEnvelope :: "jsval \<Rightarrow> bool" where
  "is_BroadcastEnvelope data =
     (case data of
        JObj fs \<Rightarrow>
          get_prop data ''type'' = JStr ''state-update''
          \<and> has_own data ''state''
          \<and> (case get_prop data ''timestamp'' of JNum n \<Rightarrow> True | _ \<Rightarrow> False)
      | _ \<Rightarrow> False)"

section \<open>Conditions on the callers' callbacks and on the backend\<close>

definition returns_normally :: "callback \<Rightarrow> bool" where
  "returns_normally f = (\<forall>new old. f new old = Inr ())"

definition listeners_return_normally :: "echo \<Rightarrow> bool" where
  "listeners_return_normally s = (\<forall>l \<in> set (listeners s). returns_normally (snd l))"

definition onChange_returns_normally :: "echo \<Rightarrow> bool" where
  "onChange_returns_normally s =
     (case onChange (options s) of None \<Rightarrow> True | Some cb \<Rightarrow> returns_normally cb)"

text \<open>\<open>JSON.stringify\<close> accepts the value.\<close>

definition serialisable :: "echo \<Rightarrow> jsval \<Rightarrow> bool" where
  "serialisable s v = (case JSON_stringify (env s) v of Inl e \<Rightarrow> False | Inr h \<Rightarrow> True)"

text \<open>
  The next write of the state \<open>v\<close> to \<open>localStorage\<close> does not throw: the record
  is serialised and stored (trivially so for a store that does not write there).
\<close>

definition localStorage_write_succeeds :: "echo \<Rightarrow> jsval \<Rightarrow> bool" where
  "localStorage_write_succeeds s v =
     (if persistence_of (options s) = LocalStoragePersist \<and> has_localStorage (env s)
      then serialisable s (persisted_record v)
           \<and> (case write_outcomes s of [] \<Rightarrow> True | ok # rest \<Rightarrow> ok)
      else True)"

text \<open>
  The hash \<open>broadcastState\<close> computes of the state \<open>v\<close> exists (trivially so where
  \<open>broadcastState\<close> returns before computing it: no channel, or no \<open>sync\<close>
  option).
\<close>

definition broadcast_hash_succeeds :: "echo \<Rightarrow> jsval \<Rightarrow> bool" where
  "broadcast_hash_succeeds s v =
     (if channel s = None then True
      else if sync_option (options s) then serialisable s v
      else True)"

text \<open>An unnamed store \<open>{ count: 0 }\<close> whose \<open>onChange\<close> callback throws.\<close>

definition fragile_store :: echo where
  "fragile_store =
     Echo_new (0, JObj [(''count'', JNum 0)])
       \<lparr>name = None, storageType = None, onChange = Some throwing_callback, sync_option = False\<rparr>
       browser []"

text \<open>
  A store \<open>{ theme: "light" }\<close> persisted to IndexedDB under the name
  \<open>settings\<close>, as the constructor leaves it. The backend accepts the first write
  and rejects the next three. \<open>settings_seeded\<close> is the store after
  \<open>initializeState\<close> found no record and wrote the default value.
\<close>

definition settings_new :: echo where
  "settings_new =
     Echo_new (0, JObj [(''theme'', JStr ''light'')])
       \<lparr>name = Some ''settings'', storageType = Some indexedDB, onChange = None, sync_option = False\<rparr>
       browser [True, False, False, False]"

definition settings_seeded :: echo where
  "settings_seeded = initializeState settings_new (Inr JNull)"

section \<open>Basic facts\<close>

subsection \<open>Traces and property maps\<close>

lemma onChange_calls_append: "onChange_calls (xs @ ys) = onChange_calls xs @ onChange_calls ys"
  by (induction xs rule: onChange_calls.induct) simp_all

lemma posted_append: "posted (xs @ ys) = posted xs @ posted ys"
  by (induction xs rule: posted.induct) simp_all

lemma idb_writes_append: "idb_writes (xs @ ys) = idb_writes xs @ idb_writes ys"
  by (induction xs rule: idb_writes.induct) simp_all

lemma notify_quiet:
  "onChange_calls (fst (notify ls n old)) = [] \<and> posted (fst (notify ls n old)) = []
     \<and> idb_writes (fst (notify ls n old)) = []"
  by (induction ls) (auto split: sum.splits prod.splits)

lemma upd_add: "(m(k \<mapsto> v)) ++ n = m ++ ([k \<mapsto> v] ++ n)"
  by (rule ext) (simp add: map_add_def split: option.splits)

lemma map_of_fold_update:
  "map_of (fold (\<lambda>(k, v). AList.update k v) xs t) = map_of t ++ map_of (rev xs)"
proof (induction xs arbitrary: t)
  case Nil
  show ?case by simp
next
  case (Cons x xs)
  obtain k v where x: "x = (k, v)" by (cases x)
  have "map_of (fold (\<lambda>(k, v). AList.update k v) (x # xs) t)
        = (map_of t)(k \<mapsto> v) ++ map_of (rev xs)"
    by (simp only: x fold.simps o_apply prod.case Cons.IH update_conv')
  also have "\<dots> = map_of t ++ ([k \<mapsto> v] ++ map_of (rev xs))"
    by (rule upd_add)
  also have "[k \<mapsto> v] ++ map_of (rev xs) = map_of (rev (x # xs))"
    by (simp add: x)
  finally show ?case .
qed

lemma distinct_fold_update:
  "distinct (map fst t) \<Longrightarrow> distinct (map fst (fold (\<lambda>(k, v). AList.update k v) xs t))"
  by (induction xs arbitrary: t) (auto simp: distinct_update)

lemma map_of_rev_distinct: "distinct (map fst xs) \<Longrightarrow> map_of (rev xs) = map_of xs"
proof (induction xs)
  case Nil
  show ?case by simp
next
  case (Cons x xs)
  obtain k v where x: "x = (k, v)" by (cases x)
  from Cons.prems have k: "map_of xs k = None" and d: "distinct (map fst xs)"
    by (auto simp: x map_of_eq_None_iff)
  have "map_of (rev (x # xs)) = [k \<mapsto> v] ++ map_of xs"
    by (simp add: x Cons.IH [OF d])
  also have "\<dots> = map_of (x # xs)"
    using k by (intro ext) (simp add: x map_add_def split: option.splits)
  finally show ?case .
qed

lemma distinct_assign_props: "distinct (map fst t) \<Longrightarrow> distinct (map fst (assign_props t v))"
  unfolding assign_props_def by (rule distinct_fold_update)

lemma props_Object_assign: "props (Object_assign a b) = props a ++ props b"
proof -
  have d: "distinct (map fst (assign_props (assign_props [] a) b))"
    by (intro distinct_assign_props) simp
  have "props (Object_assign a b) = map_of (assign_props (assign_props [] a) b)"
    by (simp add: props_def Object_assign_def map_of_rev_distinct [OF d])
  also have "\<dots> = props a ++ props b"
    by (simp add: assign_props_def map_of_fold_update props_def)
  finally show ?thesis .
qed

lemma props_spread: "map_of (spread v) = props v"
  by (simp add: spread_def assign_props_def map_of_fold_update props_def)



lemma setState_no_value: "partial_value s p = Inl e \<Longrightarrow> setState s p r = (Inl e, s)"
  by (simp add: setState_def)

lemma setState_same: "partial_value s p = Inr v \<Longrightarrow> Object_is v (state s) \<Longrightarrow> setState s p r = (Inr (), s)"
  by (simp add: setState_def)

lemma setState_shape:
  "\<exists>st na stm evs. snd (setState s p r) = s\<lparr>state := st, nextAddr := na, saveTimeout := stm, trace := trace s @ evs\<rparr>
      \<and> onChange_calls evs = [] \<and> posted evs = [] \<and> idb_writes evs = []"
proof -
  have trivial: "s = s\<lparr>state := state s, nextAddr := nextAddr s, saveTimeout := saveTimeout s, trace := trace s @ []\<rparr>"
    by simp
  show ?thesis
  proof (cases "partial_value s p")
    case (Inl e)
    then have "snd (setState s p r) = s" by (simp add: setState_no_value)
    with trivial show ?thesis
      by (metis onChange_calls.simps(1) posted.simps(1) idb_writes.simps(1))
  next
    case (Inr v)
    show ?thesis
    proof (cases "Object_is v (state s)")
      case True
      with Inr have "snd (setState s p r) = s" by (simp add: setState_same)
      with trivial show ?thesis
        by (metis onChange_calls.simps(1) posted.simps(1) idb_writes.simps(1))
    next
      case False
      define s1 where "s1 = (if (case r of Some b \<Rightarrow> b | None \<Rightarrow> \<not> is_object (snd v))
                        then s\<lparr>state := v\<rparr>
                        else s\<lparr>state := (nextAddr s, Object_assign (snd (state s)) (snd v)),
                               nextAddr := Suc (nextAddr s)\<rparr>)"
      define s2 where "s2 = (if persistence_of (options s1) = IndexedDBMiddleware
                        then s1\<lparr>saveTimeout := Some (snd (state s1))\<rparr> else s1)"
      define evs where "evs = fst (notify (listeners s2) (snd (state s2)) (snd (state s)))"
      have eq: "snd (setState s p r) = s2\<lparr>trace := trace s2 @ evs\<rparr>"
        using Inr False
        by (simp add: setState_def Let_def s1_def s2_def evs_def split: prod.splits)
      have "s2\<lparr>trace := trace s2 @ evs\<rparr> = s\<lparr>state := state s2, nextAddr := nextAddr s2, saveTimeout := saveTimeout s2, trace := trace s @ evs\<rparr>"
        by (simp add: s2_def s1_def)
      moreover have "onChange_calls evs = [] \<and> posted evs = [] \<and> idb_writes evs = []"
        unfolding evs_def by (rule notify_quiet)
      ultimately show ?thesis using eq by metis
    qed
  qed
qed

lemma setState_state:
  "partial_value s p = Inr v \<Longrightarrow>
   snd (state (snd (setState s p r))) =
     (if Object_is v (state s) then snd (state s)
      else if (case r of Some b \<Rightarrow> b | None \<Rightarrow> \<not> is_object (snd v)) then snd v
      else Object_assign (snd (state s)) (snd v))"
  by (simp add: setState_def Let_def split: prod.splits)

lemma persist_setItem_shape:
  "\<exists>wo evs. snd (persist_setItem s) = s\<lparr>write_outcomes := wo, trace := trace s @ evs\<rparr>
      \<and> onChange_calls evs = [] \<and> posted evs = [] \<and> idb_writes evs = []"
proof (cases "JSON_stringify (env s) (persisted_record (snd (state s)))")
  case (Inl e)
  then have "snd (persist_setItem s) = s\<lparr>write_outcomes := write_outcomes s, trace := trace s @ []\<rparr>"
    by (simp add: persist_setItem_def)
  then show ?thesis
    by (metis onChange_calls.simps(1) posted.simps(1) idb_writes.simps(1))
next
  case (Inr serialised)
  define ev where "ev = LocalStorageSetItem (the_name (options s)) (persisted_record (snd (state s)))
      (case write_outcomes s of [] \<Rightarrow> True | ok # rest \<Rightarrow> ok)"
  have "snd (persist_setItem s) = s\<lparr>write_outcomes := tl (write_outcomes s), trace := trace s @ [ev]\<rparr>"
    using Inr
    by (cases "write_outcomes s") (simp_all add: persist_setItem_def storage_write_def log_event_def ev_def)
  moreover have "onChange_calls [ev] = [] \<and> posted [ev] = [] \<and> idb_writes [ev] = []"
    by (simp add: ev_def)
  ultimately show ?thesis by blast
qed

lemma store_setState_shape:
  "\<exists>st na stm wo evs. snd (store_setState s p r) =
        s\<lparr>state := st, nextAddr := na, saveTimeout := stm, write_outcomes := wo, trace := trace s @ evs\<rparr>
      \<and> onChange_calls evs = [] \<and> posted evs = [] \<and> idb_writes evs = []"
proof -
  obtain st na stm evs where 1: "snd (setState s p r) = s\<lparr>state := st, nextAddr := na, saveTimeout := stm, trace := trace s @ evs\<rparr>"
     and q: "onChange_calls evs = []" "posted evs = []" "idb_writes evs = []"
    using setState_shape by blast
  obtain c s1 where cs: "setState s p r = (c, s1)" by (cases "setState s p r")
  with 1 have s1: "s1 = s\<lparr>state := st, nextAddr := na, saveTimeout := stm, trace := trace s @ evs\<rparr>" by simp
  show ?thesis
  proof (cases "(\<exists>u. c = Inr u) \<and> persistence_of (options s1) = LocalStoragePersist \<and> has_localStorage (env s1)")
    case True
    then have eq: "store_setState s p r = persist_setItem s1"
      by (auto simp: store_setState_def cs)
    obtain wo evs' where 2: "snd (persist_setItem s1) = s1\<lparr>write_outcomes := wo, trace := trace s1 @ evs'\<rparr>"
       and q2: "onChange_calls evs' = []" "posted evs' = []" "idb_writes evs' = []"
      using persist_setItem_shape by blast
    have "snd (store_setState s p r) = s\<lparr>state := st, nextAddr := na, saveTimeout := stm, write_outcomes := wo, trace := trace s @ (evs @ evs')\<rparr>"
      by (simp only: eq 2) (simp add: s1)
    moreover have "onChange_calls (evs @ evs') = [] \<and> posted (evs @ evs') = [] \<and> idb_writes (evs @ evs') = []"
      using q q2 by (simp add: onChange_calls_append posted_append idb_writes_append)
    ultimately show ?thesis by blast
  next
    case False
    then have "snd (store_setState s p r) = s1"
      by (cases c) (auto simp: store_setState_def cs)
    then have "snd (store_setState s p r) = s\<lparr>state := st, nextAddr := na, saveTimeout := stm, write_outcomes := write_outcomes s, trace := trace s @ evs\<rparr>"
      by (simp add: s1)
    with q show ?thesis by blast
  qed
qed

lemma store_setState_state: "state (snd (store_setState s p r)) = state (snd (setState s p r))"
proof -
  obtain c s1 where cs: "setState s p r = (c, s1)" by (cases "setState s p r")
  obtain wo evs where 2: "snd (persist_setItem s1) = s1\<lparr>write_outcomes := wo, trace := trace s1 @ evs\<rparr>"
    using persist_setItem_shape by blast
  show ?thesis
    by (cases c) (auto simp: store_setState_def cs 2)
qed

subsection \<open>Frames of the class methods\<close>

lemma Echo_broadcastState_fields:
  "state (snd (Echo_broadcastState s v)) = state s
   \<and> trace (snd (Echo_broadcastState s v)) = trace s
   \<and> options (snd (Echo_broadcastState s v)) = options s
   \<and> env (snd (Echo_broadcastState s v)) = env s
   \<and> channel (snd (Echo_broadcastState s v)) = channel s
   \<and> lastSyncHash (snd (Echo_broadcastState s v)) = lastSyncHash s"
  by (simp add: Echo_broadcastState_def split: sum.splits)

lemma call_onChange_state: "state (snd (call_onChange s n old)) = state s"
  by (simp add: call_onChange_def log_event_def split: option.splits)

lemma call_onChange_trace:
  "trace (snd (call_onChange s n old)) =
     trace s @ (case onChange (options s) of None \<Rightarrow> [] | Some cb \<Rightarrow> [OnChange n old (snd (state s))])"
  by (simp add: call_onChange_def log_event_def split: option.splits)

lemma store_setState_quiet:
  "onChange_calls (trace (snd (store_setState s p r))) = onChange_calls (trace s)
   \<and> posted (trace (snd (store_setState s p r))) = posted (trace s)
   \<and> idb_writes (trace (snd (store_setState s p r))) = idb_writes (trace s)"
proof -
  obtain st na stm wo evs where
    "snd (store_setState s p r) =
        s\<lparr>state := st, nextAddr := na, saveTimeout := stm, write_outcomes := wo, trace := trace s @ evs\<rparr>"
    and "onChange_calls evs = []" "posted evs = []" "idb_writes evs = []"
    using store_setState_shape by blast
  then show ?thesis
    by (simp add: onChange_calls_append posted_append idb_writes_append)
qed

lemma Echo_broadcastState_no_channel:
  "(if channel s \<noteq> None then Echo_broadcastState s v else (Inr (), s)) = Echo_broadcastState s v"
  by (simp add: Echo_broadcastState_def)

lemma Echo_set_unfold:
  "Echo_set s p r =
     (case store_setState s p (if r then Some True else None) of
        (Inl e, s1) \<Rightarrow> (Inl e, s1)
      | (Inr u, s1) \<Rightarrow>
          (case Echo_broadcastState s1 (snd (state s1)) of
             (Inl e, s2) \<Rightarrow> (Inl e, s2)
           | (Inr u', s2) \<Rightarrow> call_onChange s2 (snd (state s1)) (snd (state s))))"
  by (cases r)
     (simp_all only: Echo_set_def Let_def Echo_current_def Echo_broadcastState_no_channel if_True if_False)

lemma Echo_set_state:
  "state (snd (Echo_set s p r)) = state (snd (store_setState s p (if r then Some True else None)))"
proof -
  let ?r = "if r then Some True else None"
  obtain c s1 where cs: "store_setState s p ?r = (c, s1)" by (cases "store_setState s p ?r")
  obtain b s2 where bs: "Echo_broadcastState s1 (snd (state s1)) = (b, s2)"
    by (cases "Echo_broadcastState s1 (snd (state s1))")
  have s2: "state s2 = state s1"
    using bs Echo_broadcastState_fields [of s1 "snd (state s1)"] by simp
  have "state (snd (Echo_set s p r)) = state s1"
    using s2 by (cases c; cases b) (simp_all add: Echo_set_unfold cs bs call_onChange_state)
  then show ?thesis by (simp add: cs)
qed

lemma Echo_set_io:
  "posted (trace (snd (Echo_set s p r))) = posted (trace s)
   \<and> idb_writes (trace (snd (Echo_set s p r))) = idb_writes (trace s)"
proof -
  let ?r = "if r then Some True else None"
  obtain c s1 where cs: "store_setState s p ?r = (c, s1)" by (cases "store_setState s p ?r")
  have q: "posted (trace s1) = posted (trace s)" "idb_writes (trace s1) = idb_writes (trace s)"
    using store_setState_quiet [of s p ?r] by (simp_all add: cs)
  obtain b s2 where bs: "Echo_broadcastState s1 (snd (state s1)) = (b, s2)"
    by (cases "Echo_broadcastState s1 (snd (state s1))")
  have s2: "trace s2 = trace s1"
    using bs Echo_broadcastState_fields [of s1 "snd (state s1)"] by simp
  show ?thesis
    using s2 q
    by (cases c; cases b)
       (simp_all add: Echo_set_unfold cs bs call_onChange_trace
          posted_append idb_writes_append split: option.splits)
qed

lemma map_add_self: "m ++ m = m"
  by (rule ext) (simp add: map_add_def split: option.splits)

text \<open>
  C2. After \<open>set(v)\<close> (a value, or what the updater returns), \<open>current\<close> is \<open>v\<close>
  when \<open>replace\<close> is true, and the previous state with the properties of \<open>v\<close>
  merged over it when \<open>replace\<close> is false and \<open>v\<close> is an object (a record of
  fields, as the data model has it). The call is one synchronous step, and within
  it nothing is written to IndexedDB and nothing is posted on the channel.
\<close>

theorem set_read_your_write:
  assumes "partial_value s p = Inr v"
  shows "(replace \<longrightarrow> snd (Echo_current (snd (Echo_set s p replace))) = snd v)
       \<and> (\<not> replace \<and> is_object (snd v) \<longrightarrow>
            props (snd (Echo_current (snd (Echo_set s p replace))))
              = props (snd (Echo_current s)) ++ props (snd v))
       \<and> posted (trace (snd (Echo_set s p replace))) = posted (trace s)
       \<and> idb_writes (trace (snd (Echo_set s p replace))) = idb_writes (trace s)"
proof -
  have st: "snd (state (snd (Echo_set s p replace))) =
     (if Object_is v (state s) then snd (state s)
      else if (case (if replace then Some True else None) of Some b \<Rightarrow> b | None \<Rightarrow> \<not> is_object (snd v))
      then snd v else Object_assign (snd (state s)) (snd v))"
    by (simp only: Echo_set_state store_setState_state setState_state [OF assms])
  have same: "Object_is v (state s) \<Longrightarrow> snd (state s) = snd v"
    by (auto simp: Object_is_def split: if_splits)
  have 1: "replace \<longrightarrow> snd (Echo_current (snd (Echo_set s p replace))) = snd v"
    using st same by (auto simp: Echo_current_def)
  have 2: "\<not> replace \<and> is_object (snd v) \<longrightarrow>
            props (snd (Echo_current (snd (Echo_set s p replace))))
              = props (snd (Echo_current s)) ++ props (snd v)"
    using st same by (auto simp: Echo_current_def props_Object_assign map_add_self)
  from 1 2 Echo_set_io [of s p replace] show ?thesis by blast
qed

theorem set_read_your_write_witness:
  "partial_value counter_store (PValue (9, JObj [(''count'', JNum 5)])) = Inr (9, JObj [(''count'', JNum 5)])
   \<and> props (snd (Echo_current (snd (Echo_set counter_store (PValue (9, JObj [(''count'', JNum 5)])) False))))
       = props (snd (Echo_current counter_store)) ++ props (JObj [(''count'', JNum 5)])
   \<and> snd (Echo_current (snd (Echo_set counter_store (PValue (9, JObj [(''count'', JNum 5)])) False)))
       = JObj [(''count'', JNum 5), (''label'', JStr ''a'')]
   \<and> snd (Echo_current (snd (Echo_set counter_store (PValue (9, JObj [(''count'', JNum 5)])) True)))
       = JObj [(''count'', JNum 5)]"
proof -
  have v: "partial_value counter_store (PValue (9, JObj [(''count'', JNum 5)])) = Inr (9, JObj [(''count'', JNum 5)])"
    by (simp add: partial_value_def)
  have o: "is_object (snd (9::nat, JObj [(''count'', JNum 5)]))"
    by (simp add: is_object_def)
  have e: "snd (Echo_current (snd (Echo_set counter_store (PValue (9, JObj [(''count'', JNum 5)])) False)))
       = JObj [(''count'', JNum 5), (''label'', JStr ''a'')]"
    by code_simp
  from v o e set_read_your_write [OF v, of False] set_read_your_write [OF v, of True]
  show ?thesis by simp
qed

subsection \<open>What \<open>this.store.setState\<close> leaves alone\<close>

lemma store_setState_fields:
  "channel (snd (store_setState s p r)) = channel s
   \<and> lastSyncHash (snd (store_setState s p r)) = lastSyncHash s
   \<and> syncTimeout (snd (store_setState s p r)) = syncTimeout s
   \<and> options (snd (store_setState s p r)) = options s
   \<and> env (snd (store_setState s p r)) = env s
   \<and> defaultValue (snd (store_setState s p r)) = defaultValue s
   \<and> listeners (snd (store_setState s p r)) = listeners s
   \<and> pendingInbound (snd (store_setState s p r)) = pendingInbound s
   \<and> isHydrating (snd (store_setState s p r)) = isHydrating s
   \<and> lastSavedState (snd (store_setState s p r)) = lastSavedState s"
proof -
  obtain st na stm wo evs where
    "snd (store_setState s p r) =
        s\<lparr>state := st, nextAddr := na, saveTimeout := stm, write_outcomes := wo, trace := trace s @ evs\<rparr>"
    using store_setState_shape by blast
  then show ?thesis by simp
qed

lemma Echo_delete_onChange_calls:
  "onChange_calls (trace (snd (Echo_delete s key))) = onChange_calls (trace s)"
  using store_setState_quiet [of "s\<lparr>nextAddr := Suc (nextAddr s)\<rparr>"]
  by (simp add: Echo_delete_def)

text \<open>
  C1, on \<open>set\<close> and \<open>reset\<close>: when the state commit returns (and, in \<open>set\<close>,
  \<open>broadcastState\<close> returns), \<open>onChange\<close> is called once, with the new and the
  old value, the new value being what \<open>current\<close> then returns.
\<close>

lemma Echo_set_onChange_once:
  assumes "onChange (options s) = Some cb"
      and "fst (store_setState s p (if r then Some True else None)) = Inr ()"
      and "fst (Echo_broadcastState (snd (store_setState s p (if r then Some True else None)))
                  (snd (Echo_current (snd (Echo_set s p r))))) = Inr ()"
  shows "onChange_calls (trace (snd (Echo_set s p r))) =
           onChange_calls (trace s) @
             [(snd (Echo_current (snd (Echo_set s p r))), snd (Echo_current s),
               snd (Echo_current (snd (Echo_set s p r))))]"
proof -
  let ?r = "if r then Some True else None"
  obtain c s1 where cs: "store_setState s p ?r = (c, s1)" by (cases "store_setState s p ?r")
  with assms(2) have c: "c = Inr ()" by simp
  have q: "onChange_calls (trace s1) = onChange_calls (trace s)" "options s1 = options s"
    using store_setState_quiet [of s p ?r] store_setState_fields [of s p ?r]
    by (simp_all add: cs)
  have st: "state (snd (Echo_set s p r)) = state s1"
    by (simp add: Echo_set_state cs)
  obtain b s2 where bs: "Echo_broadcastState s1 (snd (state s1)) = (b, s2)"
    by (cases "Echo_broadcastState s1 (snd (state s1))")
  have b: "b = Inr ()"
    using assms(3) by (simp add: cs Echo_current_def st bs)
  have f: "trace s2 = trace s1" "options s2 = options s1" "state s2 = state s1"
    using bs Echo_broadcastState_fields [of s1 "snd (state s1)"] by simp_all
  have "trace (snd (Echo_set s p r)) = trace s1 @ [OnChange (snd (state s1)) (snd (state s)) (snd (state s1))]"
    using assms(1) q(2) f
    by (simp add: Echo_set_unfold cs c bs b call_onChange_trace)
  then show ?thesis
    by (simp add: onChange_calls_append q(1) st Echo_current_def)
qed

lemma Echo_reset_onChange_once:
  assumes "onChange (options s) = Some cb"
      and "fst (store_setState s (PValue (defaultValue s)) (Some True)) = Inr ()"
  shows "onChange_calls (trace (snd (Echo_reset s))) =
           onChange_calls (trace s) @
             [(snd (defaultValue s), snd (Echo_current s), snd (Echo_current (snd (Echo_reset s))))]
         \<and> snd (Echo_current (snd (Echo_reset s))) = snd (defaultValue s)"
proof -
  obtain c s1 where cs: "store_setState s (PValue (defaultValue s)) (Some True) = (c, s1)"
    by (cases "store_setState s (PValue (defaultValue s)) (Some True)")
  with assms(2) have c: "c = Inr ()" by simp
  have q: "onChange_calls (trace s1) = onChange_calls (trace s)" "options s1 = options s"
          "defaultValue s1 = defaultValue s"
    using store_setState_quiet [of s "PValue (defaultValue s)" "Some True"]
          store_setState_fields [of s "PValue (defaultValue s)" "Some True"]
    by (simp_all add: cs)
  have "snd (state s1) = snd (defaultValue s)"
    using setState_state [of s "PValue (defaultValue s)" "defaultValue s" "Some True"]
          store_setState_state [of s "PValue (defaultValue s)" "Some True"]
    by (auto simp: cs partial_value_def Object_is_def split: if_splits)
  moreover have "state (snd (Echo_reset s)) = state s1"
    using cs c by (simp add: Echo_reset_def Let_def call_onChange_state)
  moreover have "trace (snd (Echo_reset s)) =
        trace s1 @ [OnChange (snd (defaultValue s)) (snd (state s)) (snd (state s1))]"
    using cs c assms(1) q(2,3)
    by (simp add: Echo_reset_def Let_def Echo_current_def call_onChange_trace)
  ultimately show ?thesis
    by (simp add: onChange_calls_append q(1) Echo_current_def)
qed

text \<open>
  C1, on \<open>delete\<close>: the store \<open>{ count: 0, label: "a" }\<close> has an \<open>onChange\<close>
  callback; \<open>delete("label")\<close> returns normally and commits \<open>{ count: 0 }\<close>,
  and \<open>onChange\<close> has not been called.
\<close>

theorem delete_skips_onChange:
  "\<not> Option.is_none (onChange (options counter_store))
   \<and> snd (Echo_current counter_store) = JObj [(''count'', JNum 0), (''label'', JStr ''a'')]
   \<and> fst (Echo_delete counter_store ''label'') = Inr ()
   \<and> snd (Echo_current (snd (Echo_delete counter_store ''label''))) = JObj [(''count'', JNum 0)]
   \<and> onChange_calls (trace (snd (Echo_delete counter_store ''label''))) = []"
  by code_simp

subsection \<open>What \<open>reset\<close>, \<open>delete\<close> and the inbound path leave alone\<close>

lemma call_onChange_fields:
  "channel (snd (call_onChange s n old)) = channel s
   \<and> lastSyncHash (snd (call_onChange s n old)) = lastSyncHash s
   \<and> syncTimeout (snd (call_onChange s n old)) = syncTimeout s
   \<and> options (snd (call_onChange s n old)) = options s
   \<and> env (snd (call_onChange s n old)) = env s"
  by (simp add: call_onChange_def log_event_def split: option.splits)

lemma Echo_reset_fields:
  "channel (snd (Echo_reset s)) = channel s
   \<and> lastSyncHash (snd (Echo_reset s)) = lastSyncHash s
   \<and> syncTimeout (snd (Echo_reset s)) = syncTimeout s
   \<and> posted (trace (snd (Echo_reset s))) = posted (trace s)"
proof -
  obtain c s1 where cs: "store_setState s (PValue (defaultValue s)) (Some True) = (c, s1)"
    by (cases "store_setState s (PValue (defaultValue s)) (Some True)")
  have f: "channel s1 = channel s" "lastSyncHash s1 = lastSyncHash s" "syncTimeout s1 = syncTimeout s"
          "posted (trace s1) = posted (trace s)"
    using store_setState_fields [of s "PValue (defaultValue s)" "Some True"]
          store_setState_quiet [of s "PValue (defaultValue s)" "Some True"]
    by (simp_all add: cs)
  show ?thesis
  proof (cases c)
    case (Inl e)
    with cs f show ?thesis by (simp add: Echo_reset_def Let_def)
  next
    case (Inr u)
    with cs f show ?thesis
      by (simp add: Echo_reset_def Let_def call_onChange_fields call_onChange_trace posted_append
            split: option.splits)
  qed
qed

lemma Echo_delete_fields:
  "channel (snd (Echo_delete s key)) = channel s
   \<and> lastSyncHash (snd (Echo_delete s key)) = lastSyncHash s
   \<and> syncTimeout (snd (Echo_delete s key)) = syncTimeout s
   \<and> posted (trace (snd (Echo_delete s key))) = posted (trace s)"
  using store_setState_fields [of "s\<lparr>nextAddr := Suc (nextAddr s)\<rparr>"]
        store_setState_quiet [of "s\<lparr>nextAddr := Suc (nextAddr s)\<rparr>"]
  by (simp add: Echo_delete_def)

lemma syncTimeout_fires_posted:
  "posted (trace (syncTimeout_fires s now)) =
     posted (trace s) @
       (case syncTimeout s of
          None \<Rightarrow> []
        | Some (st, h) \<Rightarrow> (case channel s of None \<Rightarrow> [] | Some c \<Rightarrow> [envelope st now]))"
  by (simp add: syncTimeout_fires_def Let_def log_event_def posted_append split: option.splits prod.splits)


subsection \<open>The sync toggle\<close>

lemma Echo_initializeSync_lastSyncHash: "lastSyncHash (Echo_initializeSync s) = lastSyncHash s"
  by (simp add: Echo_initializeSync_def initializeSync_connect_def Echo_broadcastState_def
        Echo_current_def log_event_def Let_def split: sum.splits)

lemma initializeSync_resumes_lastSyncHash: "lastSyncHash (initializeSync_resumes s) = lastSyncHash s"
  by (simp add: initializeSync_resumes_def initializeSync_connect_def Echo_broadcastState_def
        Echo_current_def log_event_def Let_def split: sum.splits)

lemma initializeSync_connect_config:
  "options (initializeSync_connect s) = options s \<and> listeners (initializeSync_connect s) = listeners s"
  by (simp add: initializeSync_connect_def Let_def log_event_def Echo_broadcastState_def
        Echo_current_def split: sum.splits)

lemma Echo_initializeSync_config:
  "options (Echo_initializeSync s) = options s \<and> listeners (Echo_initializeSync s) = listeners s"
  by (simp add: Echo_initializeSync_def initializeSync_connect_config log_event_def)

lemma scheduled_initializeSync_runs_config:
  "options (scheduled_initializeSync_runs s) = options s
   \<and> listeners (scheduled_initializeSync_runs s) = listeners s"
  by (simp add: scheduled_initializeSync_runs_def Echo_initializeSync_config)

lemma initializeSync_resumes_config:
  "options (initializeSync_resumes s) = options s \<and> listeners (initializeSync_resumes s) = listeners s"
  by (simp add: initializeSync_resumes_def initializeSync_connect_config)

lemma syncTimeout_fires_config:
  "options (syncTimeout_fires s now) = options s \<and> listeners (syncTimeout_fires s now) = listeners s"
  by (simp add: syncTimeout_fires_def Let_def log_event_def split: option.splits prod.splits)

lemma history_store_config:
  "onChange (options history_store) = Some quiet_callback \<and> listeners history_store = []"
  by (simp add: history_store_def syncTimeout_fires_config scheduled_initializeSync_runs_config)
     (simp add: history_new_def Echo_new_def)

lemma notes_store_config:
  "onChange (options notes_store) = Some quiet_callback \<and> listeners notes_store = []"
  by (simp add: notes_store_def syncTimeout_fires_config initializeSync_resumes_config
        scheduled_initializeSync_runs_config)
     (simp add: notes_new_def Echo_new_def)

text \<open>
  What \<open>sync\<close> does by itself. \<open>sync(true)\<close> on a store whose channel is open, and
  \<open>sync(false)\<close> on a store without a channel, change nothing. \<open>sync(false)\<close> on
  a store whose channel is open closes the channel, drops it and clears
  \<open>lastSyncHash\<close>, and leaves a pending broadcast timer pending; a \<open>sync(true)\<close>
  applied to the very state it returns starts \<open>initializeSync\<close> with no hash.
\<close>

lemma sync_toggle_immediate:
  "(channel s \<noteq> None \<longrightarrow> Echo_sync s True = s)
   \<and> (channel s = None \<longrightarrow> Echo_sync s False = s)
   \<and> (channel s \<noteq> None \<longrightarrow>
        channel (Echo_sync s False) = None
        \<and> lastSyncHash (Echo_sync s False) = None
        \<and> syncTimeout (Echo_sync s False) = syncTimeout s
        \<and> trace (Echo_sync s False) = trace s @ [ChannelClose])
   \<and> (channel s \<noteq> None \<longrightarrow>
        lastSyncHash (Echo_sync (Echo_sync s False) True) = None
        \<and> lastSyncHash (initializeSync_resumes (Echo_sync (Echo_sync s False) True)) = None)"
proof -
  have 1: "channel s \<noteq> None \<longrightarrow> Echo_sync s True = s"
    by (simp add: Echo_sync_def)
  have 2: "channel s = None \<longrightarrow> Echo_sync s False = s"
    by (simp add: Echo_sync_def)
  have 3: "channel s \<noteq> None \<longrightarrow>
        channel (Echo_sync s False) = None
        \<and> lastSyncHash (Echo_sync s False) = None
        \<and> syncTimeout (Echo_sync s False) = syncTimeout s
        \<and> trace (Echo_sync s False) = trace s @ [ChannelClose]"
    by (auto simp: Echo_sync_def log_event_def)
  have 4: "channel s \<noteq> None \<longrightarrow>
        lastSyncHash (Echo_sync (Echo_sync s False) True) = None
        \<and> lastSyncHash (initializeSync_resumes (Echo_sync (Echo_sync s False) True)) = None"
    using 3
    by (simp add: Echo_sync_def [of "Echo_sync s False"] Echo_initializeSync_lastSyncHash
          initializeSync_resumes_lastSyncHash)
  from 1 2 3 4 show ?thesis by blast
qed

text \<open>
  The broadcast timer's callback stores its hash whether or not a channel is open.
\<close>

lemma stale_timer_restores_hash:
  "syncTimeout s = Some (v, h) \<Longrightarrow> channel s = None \<Longrightarrow>
   lastSyncHash (syncTimeout_fires s now) = Some h
   \<and> channel (syncTimeout_fires s now) = None
   \<and> trace (syncTimeout_fires s now) = trace s"
  by (simp add: syncTimeout_fires_def Let_def)

text \<open>
  Before \<open>initializeSync\<close> has connected, the channel is still absent, and a
  second \<open>sync(true)\<close> starts a second \<open>initializeSync\<close>: on the IndexedDB store
  \<open>notes\<close> two channels are opened, and \<open>sync(false)\<close> closes one.
\<close>

lemma sync_twice_opens_two_channels:
  "syncInitAwaiting (scheduled_initializeSync_runs notes_new) = 1
   \<and> syncInitAwaiting (Echo_sync (scheduled_initializeSync_runs notes_new) True) = 2
   \<and> filter (\<lambda>e. e = ChannelOpen ''echo-notes'' \<or> e = ChannelClose)
        (trace (Echo_sync (initializeSync_resumes (initializeSync_resumes
           (Echo_sync (scheduled_initializeSync_runs notes_new) True))) False))
       = [ChannelOpen ''echo-notes'', ChannelOpen ''echo-notes'', ChannelClose]"
  by code_simp

text \<open>
  C8, at the failing input: the store \<open>history\<close> has its channel open and has
  posted \<open>{ x: 1 }\<close>. \<open>set({ x: 2 })\<close> leaves the broadcast timer pending.
  \<open>sync(false)\<close> drops the channel and clears \<open>lastSyncHash\<close> but leaves that
  timer pending; the timer fires, posts nothing, and stores the hash of
  \<open>{ x: 2 }\<close>. The \<open>sync(true)\<close> that follows opens the channel and starts with
  that hash remembered: the broadcast of the current state \<open>{ x: 2 }\<close> is skipped,
  no timer is pending, and \<open>{ x: 2 }\<close> has been posted to no one.
\<close>

theorem sync_restart_remembers_hash:
  "channel history_store = Some ''echo-history''
   \<and> posted (trace history_store) = [envelope (JObj [(''x'', JNum 1)]) 1000]
   \<and> syncTimeout history_edited = Some (JObj [(''x'', JNum 2)], ''{\"x\":2}'')
   \<and> channel history_off = None
   \<and> lastSyncHash history_off = None
   \<and> syncTimeout history_off = Some (JObj [(''x'', JNum 2)], ''{\"x\":2}'')
   \<and> lastSyncHash history_stale = Some ''{\"x\":2}''
   \<and> posted (trace history_stale) = [envelope (JObj [(''x'', JNum 1)]) 1000]
   \<and> channel history_on_again = Some ''echo-history''
   \<and> snd (Echo_current history_on_again) = JObj [(''x'', JNum 2)]
   \<and> lastSyncHash history_on_again = Some ''{\"x\":2}''
   \<and> syncTimeout history_on_again = None
   \<and> posted (trace (syncTimeout_fires history_on_again 1300)) = [envelope (JObj [(''x'', JNum 1)]) 1000]"
  by code_simp

subsection \<open>The inbound path\<close>

lemma Object_is_content: "Object_is x y \<Longrightarrow> snd x = snd y"
  by (auto simp: Object_is_def split: if_splits)

lemma store_setState_replace:
  "partial_value s p = Inr v \<Longrightarrow> snd (state (snd (store_setState s p (Some True)))) = snd v"
  by (simp add: store_setState_state setState_state Object_is_content)

lemma inbound_apply_state:
  "fst (inbound_apply s v h) = Inr () \<Longrightarrow> snd (Echo_current (snd (inbound_apply s v h))) = v"
proof -
  let ?s0 = "s\<lparr>lastSyncHash := Some h, nextAddr := Suc (nextAddr s)\<rparr>"
  assume r: "fst (inbound_apply s v h) = Inr ()"
  obtain c s1 where cs: "store_setState ?s0 (PValue (nextAddr s, v)) (Some True) = (c, s1)"
    by (cases "store_setState ?s0 (PValue (nextAddr s, v)) (Some True)")
  have "snd (state s1) = v"
    using store_setState_replace [of ?s0 "PValue (nextAddr s, v)" "(nextAddr s, v)"]
    by (simp add: cs partial_value_def)
  moreover have "state (snd (inbound_apply s v h)) = state s1"
    by (cases c) (simp_all add: inbound_apply_def cs Let_def log_event_def split: option.splits)
  ultimately show ?thesis by (simp add: Echo_current_def)
qed

lemma inbound_apply_fields:
  "lastSyncHash (snd (inbound_apply s v h)) = Some h
   \<and> syncTimeout (snd (inbound_apply s v h)) = syncTimeout s
   \<and> channel (snd (inbound_apply s v h)) = channel s
   \<and> options (snd (inbound_apply s v h)) = options s
   \<and> env (snd (inbound_apply s v h)) = env s
   \<and> posted (trace (snd (inbound_apply s v h))) = posted (trace s)"
proof -
  let ?s0 = "s\<lparr>lastSyncHash := Some h, nextAddr := Suc (nextAddr s)\<rparr>"
  obtain c s1 where cs: "store_setState ?s0 (PValue (nextAddr s, v)) (Some True) = (c, s1)"
    by (cases "store_setState ?s0 (PValue (nextAddr s, v)) (Some True)")
  have f: "lastSyncHash s1 = Some h" "syncTimeout s1 = syncTimeout s" "channel s1 = channel s"
          "options s1 = options s" "env s1 = env s" "posted (trace s1) = posted (trace s)"
    using store_setState_fields [of ?s0 "PValue (nextAddr s, v)" "Some True"]
          store_setState_quiet [of ?s0 "PValue (nextAddr s, v)" "Some True"]
    by (simp_all add: cs)
  show ?thesis
    using f
    by (cases c)
       (simp_all add: inbound_apply_def cs Let_def log_event_def posted_append split: option.splits)
qed

lemma inbound_catch_fields:
  "lastSyncHash (inbound_catch (c, s)) = lastSyncHash s
   \<and> syncTimeout (inbound_catch (c, s)) = syncTimeout s
   \<and> channel (inbound_catch (c, s)) = channel s
   \<and> options (inbound_catch (c, s)) = options s
   \<and> env (inbound_catch (c, s)) = env s
   \<and> state (inbound_catch (c, s)) = state s
   \<and> posted (trace (inbound_catch (c, s))) = posted (trace s)
   \<and> onChange_calls (trace (inbound_catch (c, s))) = onChange_calls (trace s)"
  by (cases c) (simp_all add: inbound_catch_def log_event_def posted_append onChange_calls_append)

lemma inbound_handled_fields:
  "lastSyncHash (inbound_catch (inbound_apply s v h)) = Some h
   \<and> syncTimeout (inbound_catch (inbound_apply s v h)) = syncTimeout s
   \<and> channel (inbound_catch (inbound_apply s v h)) = channel s
   \<and> options (inbound_catch (inbound_apply s v h)) = options s
   \<and> env (inbound_catch (inbound_apply s v h)) = env s
   \<and> posted (trace (inbound_catch (inbound_apply s v h))) = posted (trace s)"
  using inbound_apply_fields [of s v h]
        inbound_catch_fields [of "fst (inbound_apply s v h)" "snd (inbound_apply s v h)"]
  by simp

lemma Echo_onmessage_outbound:
  "syncTimeout (Echo_onmessage s data) = syncTimeout s
   \<and> posted (trace (Echo_onmessage s data)) = posted (trace s)"
  by (simp add: Echo_onmessage_def Let_def inbound_handled_fields inbound_catch_fields
        split: sum.splits)

lemma onmessage_resumes_outbound:
  "syncTimeout (onmessage_resumes s) = syncTimeout s
   \<and> posted (trace (onmessage_resumes s)) = posted (trace s)"
  by (simp add: onmessage_resumes_def inbound_handled_fields split: list.splits prod.splits)

text \<open>
  C5. \<open>broadcastState\<close> called with a value whose hash is the stored
  \<open>lastSyncHash\<close> returns without scheduling anything. The stored hash becomes the
  hash of the broadcast when the broadcast timer fires (which posts the message on
  an open channel), and the hash of the message when an inbound message is applied.
  Handling an inbound message schedules no broadcast and posts nothing, whether it
  is applied at once or after the delay of an IndexedDB store; and once the message
  is applied, a broadcast of the same value is skipped.
\<close>

theorem hash_loop_suppression:
  "(Echo_getStateHash s v = Inr h \<and> lastSyncHash s = Some h \<longrightarrow>
        Echo_broadcastState s v = (Inr (), s))
   \<and> (syncTimeout s = Some (v, h) \<longrightarrow>
        lastSyncHash (syncTimeout_fires s now) = Some h
        \<and> (channel s \<noteq> None \<longrightarrow>
             posted (trace (syncTimeout_fires s now)) = posted (trace s) @ [envelope v now]))
   \<and> lastSyncHash (inbound_catch (inbound_apply s v h)) = Some h
   \<and> syncTimeout (inbound_catch (inbound_apply s v h)) = syncTimeout s
   \<and> posted (trace (inbound_catch (inbound_apply s v h))) = posted (trace s)
   \<and> syncTimeout (Echo_onmessage s data) = syncTimeout s
   \<and> posted (trace (Echo_onmessage s data)) = posted (trace s)
   \<and> syncTimeout (onmessage_resumes s) = syncTimeout s
   \<and> posted (trace (onmessage_resumes s)) = posted (trace s)
   \<and> (Echo_getStateHash s v = Inr h \<longrightarrow>
        Echo_broadcastState (inbound_catch (inbound_apply s v h)) v
          = (Inr (), inbound_catch (inbound_apply s v h)))"
proof -
  have 1: "Echo_getStateHash s v = Inr h \<and> lastSyncHash s = Some h \<longrightarrow>
        Echo_broadcastState s v = (Inr (), s)"
    by (simp add: Echo_broadcastState_def)
  have 2: "syncTimeout s = Some (v, h) \<longrightarrow>
        lastSyncHash (syncTimeout_fires s now) = Some h
        \<and> (channel s \<noteq> None \<longrightarrow>
             posted (trace (syncTimeout_fires s now)) = posted (trace s) @ [envelope v now])"
    by (auto simp: syncTimeout_fires_posted) (simp add: syncTimeout_fires_def Let_def)
  let ?s' = "inbound_catch (inbound_apply s v h)"
  have 3: "Echo_getStateHash s v = Inr h \<longrightarrow> Echo_broadcastState ?s' v = (Inr (), ?s')"
  proof
    assume g: "Echo_getStateHash s v = Inr h"
    have "lastSyncHash ?s' = Some h" "Echo_getStateHash ?s' v = Inr h"
      using inbound_handled_fields [of s v h] g by (simp_all add: Echo_getStateHash_def)
    then show "Echo_broadcastState ?s' v = (Inr (), ?s')"
      by (simp add: Echo_broadcastState_def)
  qed
  from 1 2 3 inbound_handled_fields [of s v h] Echo_onmessage_outbound [of s data]
       onmessage_resumes_outbound [of s]
  show ?thesis by blast
qed

lemma Echo_onmessage_applies:
  assumes "Echo_validateStateUpdate data = Inr True"
      and "Echo_getStateHash s (get_prop data ''state'') = Inr h"
      and "lastSyncHash s \<noteq> Some h"
      and "storageType (options s) \<noteq> Some indexedDB"
  shows "Echo_onmessage s data = inbound_catch (inbound_apply s (get_prop data ''state'') h)"
  using assms by (auto simp: Echo_onmessage_def)

theorem hash_loop_suppression_witness:
  "Echo_getStateHash history_store (JObj [(''x'', JNum 1)]) = Inr ''{\"x\":1}''
   \<and> lastSyncHash history_store = Some ''{\"x\":1}''
   \<and> Echo_broadcastState history_store (JObj [(''x'', JNum 1)]) = (Inr (), history_store)
   \<and> syncTimeout (scheduled_initializeSync_runs history_new) = Some (JObj [(''x'', JNum 1)], ''{\"x\":1}'')
   \<and> channel (scheduled_initializeSync_runs history_new) \<noteq> None
   \<and> lastSyncHash (syncTimeout_fires (scheduled_initializeSync_runs history_new) 1000) = Some ''{\"x\":1}''
   \<and> posted (trace (syncTimeout_fires (scheduled_initializeSync_runs history_new) 1000))
        = [envelope (JObj [(''x'', JNum 1)]) 1000]
   \<and> snd (Echo_current (Echo_onmessage history_store (envelope (JObj [(''x'', JNum 2)]) 1500)))
        = JObj [(''x'', JNum 2)]
   \<and> lastSyncHash (Echo_onmessage history_store (envelope (JObj [(''x'', JNum 2)]) 1500)) = Some ''{\"x\":2}''
   \<and> syncTimeout (Echo_onmessage history_store (envelope (JObj [(''x'', JNum 2)]) 1500)) = None
   \<and> posted (trace (Echo_onmessage history_store (envelope (JObj [(''x'', JNum 2)]) 1500)))
        = [envelope (JObj [(''x'', JNum 1)]) 1000]"
proof -
  have a: "Echo_getStateHash history_store (JObj [(''x'', JNum 1)]) = Inr ''{\"x\":1}''"
          "lastSyncHash history_store = Some ''{\"x\":1}''"
    by code_simp+
  have b: "syncTimeout (scheduled_initializeSync_runs history_new) = Some (JObj [(''x'', JNum 1)], ''{\"x\":1}'')"
    by code_simp
  have c: "channel (scheduled_initializeSync_runs history_new) = Some ''echo-history''"
    by code_simp
  have d: "posted (trace (scheduled_initializeSync_runs history_new)) = []"
    by code_simp
  have e: "snd (Echo_current (Echo_onmessage history_store (envelope (JObj [(''x'', JNum 2)]) 1500)))
        = JObj [(''x'', JNum 2)]"
    by code_simp
  have f: "lastSyncHash (Echo_onmessage history_store (envelope (JObj [(''x'', JNum 2)]) 1500)) = Some ''{\"x\":2}''"
    by code_simp
  have g: "syncTimeout history_store = None" "posted (trace history_store) = [envelope (JObj [(''x'', JNum 1)]) 1000]"
    by code_simp+
  from a b c d e f g
    hash_loop_suppression [of history_store "JObj [(''x'', JNum 1)]" "''{\"x\":1}''" 0
       "envelope (JObj [(''x'', JNum 2)]) 1500"]
    hash_loop_suppression [of "scheduled_initializeSync_runs history_new" "JObj [(''x'', JNum 1)]"
       "''{\"x\":1}''" 1000 JNull]
  show ?thesis by simp
qed

text \<open>
  C9. On the inbound path of a store with an \<open>onChange\<close> callback, when the
  commit of the message's state returns, \<open>onChange\<close> is called once and both of
  its arguments are the state of the message, which is what \<open>current\<close> returns at
  that moment: the value the store held before is not passed. When the commit
  throws (a subscriber threw, or the \<open>localStorage\<close> write failed), \<open>onChange\<close>
  is not called.
\<close>

theorem inbound_onChange_same_state:
  assumes "onChange (options s) = Some cb"
  shows "onChange_calls (trace (inbound_catch (inbound_apply s v h))) =
           onChange_calls (trace s) @
             (if fst (store_setState (s\<lparr>lastSyncHash := Some h, nextAddr := Suc (nextAddr s)\<rparr>)
                        (PValue (nextAddr s, v)) (Some True)) = Inr ()
              then [(v, v, v)] else [])"
proof -
  let ?s0 = "s\<lparr>lastSyncHash := Some h, nextAddr := Suc (nextAddr s)\<rparr>"
  obtain c s1 where cs: "store_setState ?s0 (PValue (nextAddr s, v)) (Some True) = (c, s1)"
    by (cases "store_setState ?s0 (PValue (nextAddr s, v)) (Some True)")
  have q: "onChange_calls (trace s1) = onChange_calls (trace s)" "options s1 = options s"
    using store_setState_quiet [of ?s0 "PValue (nextAddr s, v)" "Some True"]
          store_setState_fields [of ?s0 "PValue (nextAddr s, v)" "Some True"]
    by (simp_all add: cs)
  have st: "snd (state s1) = v"
    using store_setState_replace [of ?s0 "PValue (nextAddr s, v)" "(nextAddr s, v)"]
    by (simp add: cs partial_value_def)
  have "onChange_calls (trace (snd (inbound_apply s v h))) =
          onChange_calls (trace s) @ (if c = Inr () then [(v, v, v)] else [])"
    using assms q st
    by (cases c)
       (simp_all add: inbound_apply_def cs Let_def log_event_def onChange_calls_append Echo_current_def)
  then show ?thesis
    using inbound_catch_fields [of "fst (inbound_apply s v h)" "snd (inbound_apply s v h)"]
    by (simp add: cs)
qed

theorem inbound_onChange_same_state_witness:
  "snd (Echo_current history_store) = JObj [(''x'', JNum 1)]
   \<and> \<not> Option.is_none (onChange (options history_store))
   \<and> onChange_calls (trace history_store) = []
   \<and> onChange_calls (trace (Echo_onmessage history_store (envelope (JObj [(''x'', JNum 2)]) 1500)))
        = [(JObj [(''x'', JNum 2)], JObj [(''x'', JNum 2)], JObj [(''x'', JNum 2)])]"
proof -
  let ?data = "envelope (JObj [(''x'', JNum 2)]) 1500"
  have a: "snd (Echo_current history_store) = JObj [(''x'', JNum 1)]" by code_simp
  have b: "onChange (options history_store) = Some quiet_callback"
    using history_store_config by simp
  have c: "onChange_calls (trace history_store) = []" by code_simp
  have v: "Echo_validateStateUpdate ?data = Inr True" by code_simp
  have g: "get_prop ?data ''state'' = JObj [(''x'', JNum 2)]" by code_simp
  have h: "Echo_getStateHash history_store (JObj [(''x'', JNum 2)]) = Inr ''{\"x\":2}''"
          "lastSyncHash history_store \<noteq> Some ''{\"x\":2}''"
    by code_simp+
  have t: "storageType (options history_store) \<noteq> Some indexedDB" by code_simp
  have ok: "fst (store_setState (history_store\<lparr>lastSyncHash := Some ''{\"x\":2}'',
                    nextAddr := Suc (nextAddr history_store)\<rparr>)
                  (PValue (nextAddr history_store, JObj [(''x'', JNum 2)])) (Some True)) = Inr ()"
    by code_simp
  have m: "Echo_onmessage history_store ?data =
      inbound_catch (inbound_apply history_store (JObj [(''x'', JNum 2)]) ''{\"x\":2}'')"
    using Echo_onmessage_applies [OF v _ h(2) t] h(1) g by simp
  from a b c ok m
    inbound_onChange_same_state [OF b, of "JObj [(''x'', JNum 2)]" "''{\"x\":2}''"]
  show ?thesis by simp
qed

text \<open>
  C7, as stated: a message whose \<open>timestamp\<close> is a string does not have the
  envelope shape, and the receiver applies it.
\<close>

theorem malformed_envelope_applied:
  "\<not> is_BroadcastEnvelope
        (JObj [(''type'', JStr ''state-update''), (''state'', JObj [(''x'', JNum 2)]), (''timestamp'', JStr ''soon'')])
   \<and> snd (Echo_current history_store) = JObj [(''x'', JNum 1)]
   \<and> snd (Echo_current (Echo_onmessage history_store
        (JObj [(''type'', JStr ''state-update''), (''state'', JObj [(''x'', JNum 2)]), (''timestamp'', JStr ''soon'')])))
       = JObj [(''x'', JNum 2)]"
  by code_simp

lemma log_event_fields:
  "state (log_event e s) = state s \<and> lastSyncHash (log_event e s) = lastSyncHash s
   \<and> pendingInbound (log_event e s) = pendingInbound s \<and> trace (log_event e s) = trace s @ [e]"
  by (simp add: log_event_def)

text \<open>
  C7, amended. \<open>validateStateUpdate\<close> accepts exactly the objects whose \<open>type\<close>
  is \<open>"state-update"\<close> and which have own properties \<open>state\<close> and
  \<open>timestamp\<close>, of whatever type (and no own property \<open>hasOwnProperty\<close>). A
  message it rejects leaves the store as it was; when the validation throws, the
  handler catches the exception, logs it and leaves the state as it was.
\<close>

theorem inbound_validation:
  "(Echo_validateStateUpdate data = Inr True \<longleftrightarrow>
      truthy data \<and> typeof_object data \<and> get_prop data ''type'' = JStr ''state-update''
      \<and> \<not> has_own data ''hasOwnProperty'' \<and> has_own data ''state'' \<and> has_own data ''timestamp'')
   \<and> (Echo_validateStateUpdate data = Inr False \<longrightarrow> Echo_onmessage s data = s)
   \<and> (Echo_validateStateUpdate data = Inl e \<longrightarrow>
        Echo_onmessage s data = log_event (ConsoleError ''error while handling sync message'') s)
   \<and> (Echo_validateStateUpdate data \<noteq> Inr True \<longrightarrow>
        state (Echo_onmessage s data) = state s
        \<and> lastSyncHash (Echo_onmessage s data) = lastSyncHash s
        \<and> pendingInbound (Echo_onmessage s data) = pendingInbound s
        \<and> onChange_calls (trace (Echo_onmessage s data)) = onChange_calls (trace s))"
proof -
  have 1: "Echo_validateStateUpdate data = Inr True \<longleftrightarrow>
      truthy data \<and> typeof_object data \<and> get_prop data ''type'' = JStr ''state-update''
      \<and> \<not> has_own data ''hasOwnProperty'' \<and> has_own data ''state'' \<and> has_own data ''timestamp''"
    by (simp add: Echo_validateStateUpdate_def)
  have 2: "Echo_validateStateUpdate data = Inr False \<longrightarrow> Echo_onmessage s data = s"
    by (simp add: Echo_onmessage_def)
  have 3: "Echo_validateStateUpdate data = Inl e \<longrightarrow>
        Echo_onmessage s data = log_event (ConsoleError ''error while handling sync message'') s"
    by (simp add: Echo_onmessage_def inbound_catch_def)
  have 4: "Echo_validateStateUpdate data \<noteq> Inr True \<longrightarrow>
        state (Echo_onmessage s data) = state s
        \<and> lastSyncHash (Echo_onmessage s data) = lastSyncHash s
        \<and> pendingInbound (Echo_onmessage s data) = pendingInbound s
        \<and> onChange_calls (trace (Echo_onmessage s data)) = onChange_calls (trace s)"
  proof (cases "Echo_validateStateUpdate data")
    case (Inl e')
    then show ?thesis
      by (simp add: Echo_onmessage_def inbound_catch_def log_event_fields onChange_calls_append)
  next
    case (Inr b)
    then show ?thesis by (cases b) (simp_all add: Echo_onmessage_def)
  qed
  from 1 2 3 4 show ?thesis by blast
qed

theorem inbound_validation_witness:
  "Echo_validateStateUpdate (JObj [(''type'', JStr ''state-update''), (''state'', JObj [(''x'', JNum 2)])]) = Inr False
   \<and> Echo_onmessage history_store (JObj [(''type'', JStr ''state-update''), (''state'', JObj [(''x'', JNum 2)])])
        = history_store
   \<and> Echo_validateStateUpdate (JObj [(''type'', JStr ''state-update''), (''hasOwnProperty'', JNum 1)]) = Inl TypeError
   \<and> Echo_onmessage history_store (JObj [(''type'', JStr ''state-update''), (''hasOwnProperty'', JNum 1)])
        = log_event (ConsoleError ''error while handling sync message'') history_store
   \<and> state (Echo_onmessage history_store (JStr ''state-update'')) = state history_store
   \<and> Echo_validateStateUpdate (envelope (JObj [(''x'', JNum 2)]) 1500) = Inr True"
proof -
  have a: "Echo_validateStateUpdate (JObj [(''type'', JStr ''state-update''), (''state'', JObj [(''x'', JNum 2)])]) = Inr False"
    by code_simp
  have b: "Echo_validateStateUpdate (JObj [(''type'', JStr ''state-update''), (''hasOwnProperty'', JNum 1)]) = Inl TypeError"
    by code_simp
  have c: "Echo_validateStateUpdate (JStr ''state-update'') \<noteq> Inr True"
    by code_simp
  have d: "Echo_validateStateUpdate (envelope (JObj [(''x'', JNum 2)]) 1500) = Inr True"
    by code_simp
  from a b c d
    inbound_validation [where data = "JObj [(''type'', JStr ''state-update''), (''state'', JObj [(''x'', JNum 2)])]"
       and s = history_store and e = TypeError]
    inbound_validation [where data = "JObj [(''type'', JStr ''state-update''), (''hasOwnProperty'', JNum 1)]"
       and s = history_store and e = TypeError]
    inbound_validation [where data = "JStr ''state-update''" and s = history_store and e = TypeError]
  show ?thesis by simp
qed

subsection \<open>Exceptions on the hot path\<close>

text \<open>
  C6, as stated: with an \<open>onChange\<close> callback that throws, \<open>set\<close> and \<open>reset\<close>
  throw to their caller.
\<close>

theorem set_throws_from_onChange:
  "fst (Echo_set fragile_store (PValue (9, JObj [(''count'', JNum 5)])) False) = Inl (UserError ''boom'')
   \<and> fst (Echo_reset fragile_store) = Inl (UserError ''boom'')"
  by code_simp

lemma notify_returns:
  "\<forall>l \<in> set ls. returns_normally (snd l) \<Longrightarrow> snd (notify ls n old) = Inr ()"
  by (induction ls) (auto simp: returns_normally_def split: sum.splits prod.splits)

lemma setState_returns:
  assumes "partial_value s p = Inr v" and "listeners_return_normally s"
  shows "fst (setState s p r) = Inr ()"
proof (cases "Object_is v (state s)")
  case True
  with assms(1) show ?thesis by (simp add: setState_same)
next
  case False
  have n: "\<And>n old. snd (notify (listeners s) n old) = Inr ()"
    using assms(2) by (simp add: listeners_return_normally_def notify_returns)
  have f: "\<And>x g. fst (case x of (evs, c) \<Rightarrow> (c, g evs)) = snd x"
    by (simp add: split_beta)
  show ?thesis
    using assms(1) False
    by (simp add: setState_def Let_def f n)
qed

lemma store_setState_returns:
  assumes "partial_value s p = Inr v" and "listeners_return_normally s"
      and "localStorage_write_succeeds s (snd (state (snd (setState s p r))))"
  shows "fst (store_setState s p r) = Inr ()"
proof -
  obtain c s1 where cs: "setState s p r = (c, s1)" by (cases "setState s p r")
  have c: "c = Inr ()" using setState_returns [OF assms(1,2), of r] by (simp add: cs)
  obtain st na stm evs where
    "snd (setState s p r) = s\<lparr>state := st, nextAddr := na, saveTimeout := stm, trace := trace s @ evs\<rparr>"
    using setState_shape by blast
  then have s1: "options s1 = options s" "env s1 = env s" "write_outcomes s1 = write_outcomes s"
    by (simp_all add: cs)
  show ?thesis
    using assms(3) s1
    by (cases "write_outcomes s")
       (auto simp: store_setState_def cs c localStorage_write_succeeds_def persist_setItem_def
          storage_write_def serialisable_def split: if_splits sum.splits)
qed

text \<open>
  With the channel open and the \<open>sync\<close> option, \<open>set\<close> hashes the committed state
  outside any \<open>try\<close>: on the \<open>notes\<close> store every callback returns normally, and
  \<open>set({ n: 10n })\<close> commits the state and throws the \<open>TypeError\<close> of
  \<open>JSON.stringify\<close>, before \<open>onChange\<close> is called.
\<close>

lemma set_throws_from_getStateHash:
  "\<not> Option.is_none (channel notes_store)
   \<and> fst (Echo_set notes_store (PValue (9, JObj [(''n'', JBigInt 10)])) False) = Inl TypeError
   \<and> snd (Echo_current (snd (Echo_set notes_store (PValue (9, JObj [(''n'', JBigInt 10)])) False)))
        = JObj [(''n'', JBigInt 10)]
   \<and> onChange_calls (trace (snd (Echo_set notes_store (PValue (9, JObj [(''n'', JBigInt 10)])) False))) = []"
  by code_simp

text \<open>
  C6, amended. \<open>subscribe\<close> returns normally (\<open>current\<close> is a plain read). \<open>set\<close>
  and \<open>reset\<close> return normally whenever the updater passed to \<open>set\<close> returns, the
  subscribed listeners and the \<open>onChange\<close> callback return normally,
  \<open>JSON.stringify\<close> accepts the committed state where it is serialised (by
  \<open>broadcastState\<close> when the channel is open on a store with the \<open>sync\<close> option,
  by zustand for \<open>localStorage\<close>) and, for a store that zustand persists to
  \<open>localStorage\<close>, the synchronous write succeeds. Nothing is asked of the
  IndexedDB backend: its failures do not make them throw.
\<close>

theorem hot_path_returns:
  "fst (Echo_subscribe s listener) = Inr (nextListener s)
   \<and> (partial_value s p = Inr v \<and> listeners_return_normally s \<and> onChange_returns_normally s
        \<and> localStorage_write_succeeds s (snd (Echo_current (snd (Echo_set s p replace))))
        \<and> broadcast_hash_succeeds s (snd (Echo_current (snd (Echo_set s p replace))))
        \<longrightarrow> fst (Echo_set s p replace) = Inr ())
   \<and> (listeners_return_normally s \<and> onChange_returns_normally s
        \<and> localStorage_write_succeeds s (snd (defaultValue s)) \<longrightarrow> fst (Echo_reset s) = Inr ())"
proof -
  have 1: "fst (Echo_subscribe s listener) = Inr (nextListener s)"
    by (simp add: Echo_subscribe_def)
  have cb: "\<And>s' n old. onChange_returns_normally s \<Longrightarrow> options s' = options s
              \<Longrightarrow> fst (call_onChange s' n old) = Inr ()"
    by (simp add: call_onChange_def onChange_returns_normally_def returns_normally_def
          split: option.splits)
  have 2: "fst (Echo_set s p replace) = Inr ()"
    if h: "partial_value s p = Inr v" "listeners_return_normally s" "onChange_returns_normally s"
          "localStorage_write_succeeds s (snd (Echo_current (snd (Echo_set s p replace))))"
          "broadcast_hash_succeeds s (snd (Echo_current (snd (Echo_set s p replace))))"
  proof -
    let ?r = "if replace then Some True else None"
    obtain c s1 where cs: "store_setState s p ?r = (c, s1)" by (cases "store_setState s p ?r")
    have st: "state (snd (Echo_set s p replace)) = state s1"
      by (simp add: Echo_set_state cs)
    have st': "state s1 = state (snd (setState s p ?r))"
      using store_setState_state [of s p ?r] by (simp add: cs)
    have "localStorage_write_succeeds s (snd (state (snd (setState s p ?r))))"
      using h(4) by (simp add: Echo_current_def st st')
    from store_setState_returns [OF h(1,2) this]
    have c: "c = Inr ()" by (simp add: cs)
    have f: "options s1 = options s" "env s1 = env s" "channel s1 = channel s"
      using store_setState_fields [of s p ?r] by (simp_all add: cs)
    have "broadcast_hash_succeeds s (snd (state s1))"
      using h(5) by (simp add: Echo_current_def st)
    then have b: "fst (Echo_broadcastState s1 (snd (state s1))) = Inr ()"
      using f
      by (simp add: broadcast_hash_succeeds_def Echo_broadcastState_def Echo_getStateHash_def
            serialisable_def split: if_splits sum.splits)
    obtain b' s2 where bs: "Echo_broadcastState s1 (snd (state s1)) = (b', s2)"
      by (cases "Echo_broadcastState s1 (snd (state s1))")
    have b': "b' = Inr ()" using bs b by simp
    have o2: "options s2 = options s"
      using bs f Echo_broadcastState_fields [of s1 "snd (state s1)"] by simp
    show ?thesis
      by (simp add: Echo_set_unfold cs c bs b' cb [OF h(3) o2])
  qed
  have 3: "fst (Echo_reset s) = Inr ()"
    if h: "listeners_return_normally s" "onChange_returns_normally s"
          "localStorage_write_succeeds s (snd (defaultValue s))"
  proof -
    let ?p = "PValue (defaultValue s)"
    obtain c s1 where cs: "store_setState s ?p (Some True) = (c, s1)"
      by (cases "store_setState s ?p (Some True)")
    have pv: "partial_value s ?p = Inr (defaultValue s)" by (simp add: partial_value_def)
    have "snd (state (snd (setState s ?p (Some True)))) = snd (defaultValue s)"
      using store_setState_replace [OF pv] by (simp add: store_setState_state)
    with h(3) have "localStorage_write_succeeds s (snd (state (snd (setState s ?p (Some True)))))"
      by simp
    from store_setState_returns [OF pv h(1) this]
    have c: "c = Inr ()" by (simp add: cs)
    have o: "options s1 = options s" using store_setState_fields [of s ?p "Some True"] by (simp add: cs)
    show ?thesis
      using cs c by (simp add: Echo_reset_def Let_def cb [OF h(2)] o)
  qed
  from 1 2 3 show ?thesis by blast
qed

lemma Echo_subscribe_fields:
  "listeners (snd (Echo_subscribe s l)) = listeners s @ [(nextListener s, l)]
   \<and> options (snd (Echo_subscribe s l)) = options s
   \<and> env (snd (Echo_subscribe s l)) = env s
   \<and> write_outcomes (snd (Echo_subscribe s l)) = write_outcomes s"
  by (simp add: Echo_subscribe_def)

theorem hot_path_returns_witness:
  "fst (Echo_subscribe history_store quiet_callback) = Inr 0
   \<and> \<not> Option.is_none (channel (snd (Echo_subscribe history_store quiet_callback)))
   \<and> fst (Echo_set (snd (Echo_subscribe history_store quiet_callback)) (PValue (9, JObj [(''x'', JNum 2)])) False) = Inr ()
   \<and> fst (Echo_reset (snd (Echo_subscribe history_store quiet_callback))) = Inr ()
   \<and> \<not> Option.is_none (channel notes_store)
   \<and> fst (Echo_set notes_store (PValue (9, JObj [(''n'', JNum 2)])) False) = Inr ()
   \<and> write_outcomes settings_seeded = [False, False, False]
   \<and> fst (Echo_set settings_seeded (PValue (9, JObj [(''theme'', JStr ''dark'')])) False) = Inr ()
   \<and> fst (Echo_reset settings_seeded) = Inr ()"
proof -
  let ?h = "snd (Echo_subscribe history_store quiet_callback)"
  have q: "returns_normally quiet_callback"
    by (simp add: returns_normally_def quiet_callback_def)
  have n: "nextListener history_store = 0" by code_simp
  have c: "\<not> Option.is_none (channel ?h)" "\<not> Option.is_none (channel notes_store)" by code_simp+
  have h1: "listeners_return_normally ?h"
    using Echo_subscribe_fields [of history_store quiet_callback] history_store_config q
    by (simp add: listeners_return_normally_def)
  have h2: "onChange_returns_normally ?h"
    using Echo_subscribe_fields [of history_store quiet_callback] history_store_config q
    by (simp add: onChange_returns_normally_def)
  have h3: "localStorage_write_succeeds ?h
              (snd (Echo_current (snd (Echo_set ?h (PValue (9, JObj [(''x'', JNum 2)])) False))))"
           "broadcast_hash_succeeds ?h
              (snd (Echo_current (snd (Echo_set ?h (PValue (9, JObj [(''x'', JNum 2)])) False))))"
           "localStorage_write_succeeds ?h (snd (defaultValue ?h))"
    by code_simp+
  have n1: "listeners_return_normally notes_store" "onChange_returns_normally notes_store"
    using notes_store_config q
    by (simp_all add: listeners_return_normally_def onChange_returns_normally_def)
  have n3: "localStorage_write_succeeds notes_store
              (snd (Echo_current (snd (Echo_set notes_store (PValue (9, JObj [(''n'', JNum 2)])) False))))"
           "broadcast_hash_succeeds notes_store
              (snd (Echo_current (snd (Echo_set notes_store (PValue (9, JObj [(''n'', JNum 2)])) False))))"
    by code_simp+
  have s1: "listeners_return_normally settings_seeded"
    by (simp add: listeners_return_normally_def settings_seeded_def settings_new_def Echo_new_def
          initializeState_def persistence_of_def has_name_def IDB_setItem_def storage_write_def
          log_event_def onRehydrateStorage_def the_name_def Let_def)
  have s2: "onChange_returns_normally settings_seeded"
    by (simp add: onChange_returns_normally_def settings_seeded_def settings_new_def Echo_new_def
          initializeState_def persistence_of_def has_name_def IDB_setItem_def storage_write_def
          log_event_def onRehydrateStorage_def the_name_def Let_def)
  have s3: "localStorage_write_succeeds settings_seeded
              (snd (Echo_current (snd (Echo_set settings_seeded (PValue (9, JObj [(''theme'', JStr ''dark'')])) False))))"
           "broadcast_hash_succeeds settings_seeded
              (snd (Echo_current (snd (Echo_set settings_seeded (PValue (9, JObj [(''theme'', JStr ''dark'')])) False))))"
           "localStorage_write_succeeds settings_seeded (snd (defaultValue settings_seeded))"
    by code_simp+
  have w: "write_outcomes settings_seeded = [False, False, False]" by code_simp
  from n c w
    hot_path_returns [where s = history_store and listener = quiet_callback]
    hot_path_returns [where s = ?h and p = "PValue (9, JObj [(''x'', JNum 2)])"
       and v = "(9, JObj [(''x'', JNum 2)])" and replace = False]
    hot_path_returns [where s = notes_store and p = "PValue (9, JObj [(''n'', JNum 2)])"
       and v = "(9, JObj [(''n'', JNum 2)])" and replace = False]
    hot_path_returns [where s = settings_seeded and p = "PValue (9, JObj [(''theme'', JStr ''dark'')])"
       and v = "(9, JObj [(''theme'', JStr ''dark'')])" and replace = False]
    h1 h2 h3 n1 n3 s1 s2 s3
  show ?thesis by (simp add: partial_value_def)
qed

subsection \<open>Persistence\<close>

lemma saveState_writes:
  assumes "\<not> isHydrating s" and "JSON_stringify (env s) st = Inr h"
      and "lastSavedState s \<noteq> Some h"
  shows "idb_writes (trace (saveState s st)) =
           idb_writes (trace s) @
             [(the_name (options s), st, (case write_outcomes s of [] \<Rightarrow> True | ok # rest \<Rightarrow> ok))]"
  using assms
  by (cases "write_outcomes s"; cases "hd (write_outcomes s)")
     (auto simp: saveState_def Let_def IDB_setItem_def storage_write_def log_event_def idb_writes_append)

text \<open>
  C3, in general: when hydration finds a record (a new object that
  \<open>JSON.stringify\<close> accepts, the listeners returning normally), the commit leaves the save timer pending with
  \<open>isHydrating\<close> already reset, and the timer writes the record back.
\<close>

lemma hydration_write_back:
  assumes "persistence_of (options s) = IndexedDBMiddleware"
      and "hydrationPending s" and "\<not> isInitialized s" and "saved \<noteq> JNull"
      and "listeners_return_normally s"
      and "\<not> Object_is (nextAddr s, saved) (state s)"
      and "lastSavedState s = None"
      and "JSON_stringify (env s) saved = Inr h"
  shows "\<not> isHydrating (initializeState s (Inr saved))
       \<and> saveTimeout (initializeState s (Inr saved)) = Some saved
       \<and> idb_writes (trace (saveTimeout_fires (initializeState s (Inr saved)))) =
           idb_writes (trace s) @
             [(the_name (options s), saved, (case write_outcomes s of [] \<Rightarrow> True | ok # rest \<Rightarrow> ok))]"
proof -
  let ?s0 = "s\<lparr>hydrationPending := False, isHydrating := True, nextAddr := Suc (nextAddr s)\<rparr>"
  let ?p = "PValue (nextAddr s, saved)"
  obtain c s1 where cs: "setState ?s0 ?p (Some True) = (c, s1)" by (cases "setState ?s0 ?p (Some True)")
  have pv: "partial_value ?s0 ?p = Inr (nextAddr s, saved)" by (simp add: partial_value_def)
  have "listeners_return_normally ?s0"
    using assms(5) by (simp add: listeners_return_normally_def)
  from setState_returns [OF pv this, of "Some True"] have c: "c = Inr ()" by (simp add: cs)
  have n: "\<And>n old. notify (listeners s) n old = (fst (notify (listeners s) n old), Inr ())"
    using assms(5) notify_returns [of "listeners s"]
    by (simp add: listeners_return_normally_def prod_eq_iff)
  have s1: "s1 = ?s0\<lparr>state := (nextAddr s, saved), saveTimeout := Some saved,
                    trace := trace s @ fst (notify (listeners s) saved (snd (state s)))\<rparr>"
    using cs assms(1,6) n [of saved "snd (state s)"]
    by (simp add: setState_def partial_value_def Let_def split: prod.splits)
  have q: "idb_writes (fst (notify (listeners s) saved (snd (state s)))) = []"
    using notify_quiet by blast
  have i: "initializeState s (Inr saved) =
             (onRehydrateStorage saved (s1\<lparr>isHydrating := False\<rparr>))\<lparr>isInitialized := True\<rparr>"
    using assms(2,3,4) cs c by (simp add: initializeState_def Let_def)
  let ?s2 = "initializeState s (Inr saved)"
  have f: "\<not> isHydrating ?s2" "saveTimeout ?s2 = Some saved" "lastSavedState ?s2 = None"
          "options ?s2 = options s" "env ?s2 = env s" "write_outcomes ?s2 = write_outcomes s"
          "idb_writes (trace ?s2) = idb_writes (trace s)"
    using assms(7) q
    by (simp_all add: i s1 onRehydrateStorage_def log_event_def idb_writes_append)
  have "idb_writes (trace (saveTimeout_fires ?s2)) =
          idb_writes (trace (saveState (?s2\<lparr>saveTimeout := None\<rparr>) saved))"
    by (simp add: saveTimeout_fires_def f(2))
  also have "\<dots> = idb_writes (trace s) @
             [(the_name (options s), saved, (case write_outcomes s of [] \<Rightarrow> True | ok # rest \<Rightarrow> ok))]"
    using saveState_writes [of "?s2\<lparr>saveTimeout := None\<rparr>" saved h] f assms(8) by simp
  finally show ?thesis using f(1,2) by blast
qed

text \<open>
  C3, at the failing input: the database holds \<open>{ theme: "dark" }\<close> under
  \<open>settings\<close>. Hydration commits it and returns with \<open>isHydrating\<close> false and the
  save timer pending; nothing else happens to the store, and when the timer fires
  the hydrated value is written to the backend.
\<close>

theorem hydration_commit_is_written_back:
  "idb_writes (trace settings_new) = []
   \<and> snd (Echo_current (initializeState settings_new (Inr (JObj [(''theme'', JStr ''dark'')]))))
        = JObj [(''theme'', JStr ''dark'')]
   \<and> isHydrating (initializeState settings_new (Inr (JObj [(''theme'', JStr ''dark'')]))) = False
   \<and> saveTimeout (initializeState settings_new (Inr (JObj [(''theme'', JStr ''dark'')])))
        = Some (JObj [(''theme'', JStr ''dark'')])
   \<and> idb_writes (trace (initializeState settings_new (Inr (JObj [(''theme'', JStr ''dark'')])))) = []
   \<and> idb_writes (trace (saveTimeout_fires
          (initializeState settings_new (Inr (JObj [(''theme'', JStr ''dark'')])))))
        = [(''settings'', JObj [(''theme'', JStr ''dark'')], True)]"
  by code_simp

text \<open>
  C4, in general. \<open>saveState\<close>, the write path of the middleware, makes one
  attempt: when the backend rejects it, the failure is logged, \<open>lastSavedState\<close>
  is cleared, and nothing else changes, so nothing is left that would try again.
  \<open>saveStateWithRetry\<close>, which no method calls, makes at most
  \<open>MAX_RETRY_COUNT + 1\<close> attempts.
\<close>

lemma saveState_failure:
  assumes "\<not> isHydrating s" and "JSON_stringify (env s) st = Inr h"
      and "lastSavedState s \<noteq> Some h"
      and "write_outcomes s = False # rest"
  shows "saveState s st =
           s\<lparr>lastSavedState := None, write_outcomes := rest,
             trace := trace s @ [IDBSetItem (the_name (options s)) st False,
                                 ConsoleError ''save state failed'']\<rparr>"
  using assms
  by (simp add: saveState_def Let_def IDB_setItem_def storage_write_def log_event_def)

lemma IDB_setItem_writes:
  "idb_writes (trace (snd (IDB_setItem s nm st))) = idb_writes (trace s) @ [(nm, st, fst (IDB_setItem s nm st))]"
  by (cases "write_outcomes s")
     (simp_all add: IDB_setItem_def storage_write_def log_event_def idb_writes_append)

lemma saveStateWithRetry_attempts:
  "retryCount \<le> MAX_RETRY_COUNT \<Longrightarrow>
   length (idb_writes (trace (Echo_saveStateWithRetry s st nm retryCount)))
     \<le> length (idb_writes (trace s)) + (Suc MAX_RETRY_COUNT - retryCount)"
proof (induction s st nm retryCount rule: Echo_saveStateWithRetry.induct)
  case (1 s st nm retryCount)
  obtain ok s1 where w: "IDB_setItem s nm st = (ok, s1)" by (cases "IDB_setItem s nm st")
  have len: "length (idb_writes (trace s1)) = Suc (length (idb_writes (trace s)))"
    using IDB_setItem_writes [of s nm st] by (simp add: w)
  show ?case
  proof (cases "ok \<or> \<not> retryCount < MAX_RETRY_COUNT")
    case True
    then have "Echo_saveStateWithRetry s st nm retryCount =
        (if ok then s1
         else log_event (ConsoleError (''save state failed (attempt '' @ index_key (retryCount + 1)
                      @ ''/'' @ index_key MAX_RETRY_COUNT @ '')'')) s1)"
      using w by (cases ok) (auto simp: Echo_saveStateWithRetry.simps [of s st nm retryCount] Let_def)
    then have "length (idb_writes (trace (Echo_saveStateWithRetry s st nm retryCount)))
                 = Suc (length (idb_writes (trace s)))"
      using len by (simp add: log_event_def idb_writes_append)
    then show ?thesis using "1.prems" by simp
  next
    case False
    then have ok: "ok = False" and lt: "retryCount < MAX_RETRY_COUNT" by auto
    let ?s2 = "log_event (ConsoleError (''save state failed (attempt '' @ index_key (retryCount + 1)
                      @ ''/'' @ index_key MAX_RETRY_COUNT @ '')'')) s1"
    have ih: "length (idb_writes (trace (Echo_saveStateWithRetry (log_event (TimerDelay RETRY_DELAY) ?s2) st nm (retryCount + 1))))
          \<le> length (idb_writes (trace (log_event (TimerDelay RETRY_DELAY) ?s2))) + (Suc MAX_RETRY_COUNT - (retryCount + 1))"
      using "1.IH" [OF w [symmetric, unfolded ok] refl refl lt] lt by simp
    have "Echo_saveStateWithRetry s st nm retryCount =
            Echo_saveStateWithRetry (log_event (TimerDelay RETRY_DELAY) ?s2) st nm (retryCount + 1)"
      using w ok lt by (simp add: Echo_saveStateWithRetry.simps [of s st nm retryCount] Let_def)
    then show ?thesis
      using ih len lt by (simp add: log_event_def idb_writes_append)
  qed
qed

text \<open>
  C4, at the failing input: the backend of the \<open>settings\<close> store rejects its next
  three writes. \<open>set({ theme: "dark" })\<close> returns normally and leaves the save
  timer pending; when the timer fires the write is attempted once and fails, no
  timer is pending afterwards and two of the three scripted rejections are still
  unused: the write was not retried. \<open>saveStateWithRetry\<close> on the same backend
  makes a fourth attempt after three failures, which succeeds.
\<close>

theorem failed_write_is_not_retried:
  "write_outcomes settings_seeded = [False, False, False]
   \<and> idb_writes (trace settings_seeded) = [(''settings'', JObj [(''theme'', JStr ''light'')], True)]
   \<and> fst (Echo_set settings_seeded (PValue (9, JObj [(''theme'', JStr ''dark'')])) False) = Inr ()
   \<and> saveTimeout (snd (Echo_set settings_seeded (PValue (9, JObj [(''theme'', JStr ''dark'')])) False))
        = Some (JObj [(''theme'', JStr ''dark'')])
   \<and> idb_writes (trace (saveTimeout_fires
          (snd (Echo_set settings_seeded (PValue (9, JObj [(''theme'', JStr ''dark'')])) False))))
        = [(''settings'', JObj [(''theme'', JStr ''light'')], True),
           (''settings'', JObj [(''theme'', JStr ''dark'')], False)]
   \<and> saveTimeout (saveTimeout_fires
          (snd (Echo_set settings_seeded (PValue (9, JObj [(''theme'', JStr ''dark'')])) False))) = None
   \<and> lastSavedState (saveTimeout_fires
          (snd (Echo_set settings_seeded (PValue (9, JObj [(''theme'', JStr ''dark'')])) False))) = None
   \<and> write_outcomes (saveTimeout_fires
          (snd (Echo_set settings_seeded (PValue (9, JObj [(''theme'', JStr ''dark'')])) False)))
        = [False, False]
   \<and> map (\<lambda>w. snd (snd w)) (idb_writes (trace
          (Echo_saveStateWithRetry settings_seeded (JObj [(''theme'', JStr ''dark'')]) ''settings'' 0)))
        = [True, False, False, False, True]"
  by code_simp

subsection \<open>What can schedule a broadcast\<close>

lemma setState_outbound:
  "syncTimeout (snd (setState s p r)) = syncTimeout s
   \<and> posted (trace (snd (setState s p r))) = posted (trace s)"
proof -
  obtain st na stm evs where
    "snd (setState s p r) = s\<lparr>state := st, nextAddr := na, saveTimeout := stm, trace := trace s @ evs\<rparr>"
    and "posted evs = []"
    using setState_shape by blast
  then show ?thesis by (simp add: posted_append)
qed

lemma onRehydrateStorage_outbound:
  "syncTimeout (onRehydrateStorage v s) = syncTimeout s
   \<and> posted (trace (onRehydrateStorage v s)) = posted (trace s)"
  by (simp add: onRehydrateStorage_def log_event_def posted_append)

lemma IDB_setItem_outbound:
  "syncTimeout (snd (IDB_setItem s nm v)) = syncTimeout s
   \<and> posted (trace (snd (IDB_setItem s nm v))) = posted (trace s)"
  by (cases "write_outcomes s")
     (simp_all add: IDB_setItem_def storage_write_def log_event_def posted_append)

lemma initializeState_outbound:
  "syncTimeout (initializeState s loaded) = syncTimeout s
   \<and> posted (trace (initializeState s loaded)) = posted (trace s)"
proof (cases loaded)
  case (Inl e)
  then show ?thesis
    by (simp add: initializeState_def Let_def onRehydrateStorage_outbound log_event_def posted_append)
next
  case (Inr saved)
  show ?thesis
  proof (cases "saved = JNull")
    case True
    obtain ok s1 where w: "IDB_setItem (s\<lparr>hydrationPending := False\<rparr>)
        (the_name (options s)) (snd (state s)) = (ok, s1)"
      by (cases "IDB_setItem (s\<lparr>hydrationPending := False\<rparr>) (the_name (options s)) (snd (state s))")
    have "syncTimeout s1 = syncTimeout s \<and> posted (trace s1) = posted (trace s)"
      using IDB_setItem_outbound [of "s\<lparr>hydrationPending := False\<rparr>" "the_name (options s)" "snd (state s)"]
      by (simp add: w)
    then show ?thesis
      using Inr True w
      by (cases ok)
         (simp_all add: initializeState_def Let_def onRehydrateStorage_outbound log_event_def posted_append)
  next
    case False
    let ?s0 = "s\<lparr>hydrationPending := False, isHydrating := True, nextAddr := Suc (nextAddr s)\<rparr>"
    obtain c s1 where cs: "setState ?s0 (PValue (nextAddr s, saved)) (Some True) = (c, s1)"
      by (cases "setState ?s0 (PValue (nextAddr s, saved)) (Some True)")
    have "syncTimeout s1 = syncTimeout s \<and> posted (trace s1) = posted (trace s)"
      using setState_outbound [of ?s0 "PValue (nextAddr s, saved)" "Some True"] by (simp add: cs)
    then show ?thesis
      using Inr False cs
      by (cases c)
         (simp_all add: initializeState_def Let_def onRehydrateStorage_outbound log_event_def posted_append)
  qed
qed

lemma saveState_outbound:
  "syncTimeout (saveState s st) = syncTimeout s
   \<and> posted (trace (saveState s st)) = posted (trace s)"
proof (cases "JSON_stringify (env s) st")
  case (Inl e)
  then show ?thesis by (simp add: saveState_def log_event_def posted_append)
next
  case (Inr h)
  let ?s0 = "s\<lparr>lastSavedState := Some h\<rparr>"
  obtain ok s1 where w: "IDB_setItem ?s0 (the_name (options s)) st = (ok, s1)"
    by (cases "IDB_setItem ?s0 (the_name (options s)) st")
  have "syncTimeout s1 = syncTimeout s \<and> posted (trace s1) = posted (trace s)"
    using IDB_setItem_outbound [of ?s0 "the_name (options s)" st] by (simp add: w)
  then show ?thesis
    using Inr w
    by (cases ok) (simp_all add: saveState_def log_event_def posted_append)
qed

lemma saveTimeout_fires_outbound:
  "syncTimeout (saveTimeout_fires s) = syncTimeout s
   \<and> posted (trace (saveTimeout_fires s)) = posted (trace s)"
  using saveState_outbound [of "s\<lparr>saveTimeout := None\<rparr>"]
  by (simp add: saveTimeout_fires_def split: option.splits)

lemma Echo_sync_off_outbound:
  "syncTimeout (Echo_sync s False) = syncTimeout s
   \<and> posted (trace (Echo_sync s False)) = posted (trace s)"
  by (simp add: Echo_sync_def log_event_def posted_append split: option.splits)

text \<open>
  C10. \<open>reset\<close> and \<open>delete\<close> leave the pending broadcast timer and the posted
  messages as they were, so the timer, when it fires afterwards, posts exactly what
  it would have posted without the call: the reset or deleted state goes to no
  other context. The same holds of \<open>subscribe\<close>, of \<open>sync(false)\<close>, of the inbound
  handler, of hydration and of the save timer: a broadcast is scheduled by
  \<open>broadcastState\<close> alone, which only \<open>set\<close> and \<open>initializeSync\<close> call.
\<close>

theorem reset_delete_never_broadcast:
  "syncTimeout (snd (Echo_reset s)) = syncTimeout s
   \<and> posted (trace (snd (Echo_reset s))) = posted (trace s)
   \<and> posted (trace (syncTimeout_fires (snd (Echo_reset s)) now)) = posted (trace (syncTimeout_fires s now))
   \<and> syncTimeout (snd (Echo_delete s key)) = syncTimeout s
   \<and> posted (trace (snd (Echo_delete s key))) = posted (trace s)
   \<and> posted (trace (syncTimeout_fires (snd (Echo_delete s key)) now)) = posted (trace (syncTimeout_fires s now))
   \<and> syncTimeout (snd (Echo_subscribe s listener)) = syncTimeout s
   \<and> posted (trace (snd (Echo_subscribe s listener))) = posted (trace s)
   \<and> syncTimeout (Echo_sync s False) = syncTimeout s
   \<and> posted (trace (Echo_sync s False)) = posted (trace s)
   \<and> syncTimeout (Echo_onmessage s data) = syncTimeout s
   \<and> posted (trace (Echo_onmessage s data)) = posted (trace s)
   \<and> syncTimeout (onmessage_resumes s) = syncTimeout s
   \<and> posted (trace (onmessage_resumes s)) = posted (trace s)
   \<and> syncTimeout (initializeState s loaded) = syncTimeout s
   \<and> posted (trace (initializeState s loaded)) = posted (trace s)
   \<and> syncTimeout (saveTimeout_fires s) = syncTimeout s
   \<and> posted (trace (saveTimeout_fires s)) = posted (trace s)"
proof -
  have 1: "posted (trace (syncTimeout_fires (snd (Echo_reset s)) now)) = posted (trace (syncTimeout_fires s now))"
    by (simp add: syncTimeout_fires_posted Echo_reset_fields split: option.splits prod.splits)
  have 2: "posted (trace (syncTimeout_fires (snd (Echo_delete s key)) now)) = posted (trace (syncTimeout_fires s now))"
    by (simp add: syncTimeout_fires_posted Echo_delete_fields split: option.splits prod.splits)
  have 3: "syncTimeout (snd (Echo_subscribe s listener)) = syncTimeout s
        \<and> posted (trace (snd (Echo_subscribe s listener))) = posted (trace s)"
    by (simp add: Echo_subscribe_def)
  from 1 2 3 Echo_reset_fields [of s] Echo_delete_fields [of s key] Echo_sync_off_outbound [of s]
       Echo_onmessage_outbound [of s data] onmessage_resumes_outbound [of s]
       initializeState_outbound [of s loaded] saveTimeout_fires_outbound [of s]
  show ?thesis by blast
qed

theorem reset_delete_never_broadcast_witness:
  "snd (Echo_current history_store) = JObj [(''x'', JNum 1)]
   \<and> snd (Echo_current (snd (Echo_delete history_store ''x''))) = JObj []
   \<and> syncTimeout (snd (Echo_delete history_store ''x'')) = None
   \<and> posted (trace (syncTimeout_fires (snd (Echo_delete history_store ''x'')) 2000))
        = [envelope (JObj [(''x'', JNum 1)]) 1000]
   \<and> syncTimeout (snd (Echo_set history_store (PFunc (\<lambda>st. Inr (9, JObj []))) True)) = Some (JObj [], ''{}'')"
proof -
  have a: "snd (Echo_current history_store) = JObj [(''x'', JNum 1)]" by code_simp
  have b: "snd (Echo_current (snd (Echo_delete history_store ''x''))) = JObj []" by code_simp
  have c: "syncTimeout history_store = None" by code_simp
  have d: "posted (trace (syncTimeout_fires history_store 2000)) = [envelope (JObj [(''x'', JNum 1)]) 1000]"
    by code_simp
  have e: "syncTimeout (snd (Echo_set history_store (PFunc (\<lambda>st. Inr (9, JObj []))) True)) = Some (JObj [], ''{}'')"
    by code_simp
  from a b c d e reset_delete_never_broadcast [of history_store 2000 "''x''"]
  show ?thesis by simp
qed

end
